theory Spec2Isabelle
  imports Main "HOL-Library.AList"
begin

section \<open>Data model\<close>

text \<open>
  The development embeds \<^verbatim>\<open>colossalai/auto_parallel/tensor_shard/node_handler/node_handler.py\<close>:
  the classes \<^verbatim>\<open>NodeHandler\<close> (\<^verbatim>\<open>update_resharding_cost\<close>, \<^verbatim>\<open>register_strategy\<close>,
  \<^verbatim>\<open>post_process\<close>) and \<^verbatim>\<open>ModuleHandler\<close> (\<^verbatim>\<open>__init__\<close>).

  Python exceptions are values of the type \<open>error\<close>; a call that may raise returns
  \<open>error + 'a\<close> with \<open>Inl\<close> for the exception. \<open>AssertionError\<close> carries the message of
  the failed \<^verbatim>\<open>assert\<close>, \<open>KeyError\<close> the key that was looked up. \<open>AttributeError\<close> is what
  \<^verbatim>\<open>torch.nn.Module.get_submodule\<close> raises on a path that does not resolve, and
  \<open>InvalidLayoutError\<close> is the failure of \<^verbatim>\<open>check_sharding_spec_validity\<close>.
\<close>

datatype error =
    AssertionError string
  | KeyError string
  | AttributeError string
  | InvalidLayoutError

text \<open>
  A \<^verbatim>\<open>torch.fx\<close> node is used by the handler as an identity (a dictionary key) and through
  \<^verbatim>\<open>str(node)\<close>, its name, which is unique inside one graph.
\<close>

datatype fx_node = FxNode (node_name: string)

text \<open>
  \<^verbatim>\<open>OperationData\<close>: the name of an operand, its role and the data attached to it. The
  handler only asks whether \<^verbatim>\<open>data\<close> is \<^verbatim>\<open>None\<close>, a \<^verbatim>\<open>torch.Tensor\<close> (kept here as
  its shape) or some other object.
\<close>

datatype operation_data_type = ARG | PARAM | BUFFER | OUTPUT

datatype operand_data = NoData | TensorData "nat list" | OtherData

record operation_data =
  name :: string
  role :: operation_data_type
  data :: operand_data

text \<open>
  \<^verbatim>\<open>TrainCycleItem(fwd, bwd, total)\<close>. The cost type \<open>'c\<close> is a parameter: the handler copies
  cost values and never computes with them.
\<close>

record 'c train_cycle_item =
  fwd :: 'c
  bwd :: 'c
  total :: 'c

text \<open>
  The third component of the result of \<^verbatim>\<open>ShapeConsistencyManager.shape_consistency\<close> is a
  dictionary with the keys \<^verbatim>\<open>"forward"\<close>, \<^verbatim>\<open>"backward"\<close> and \<^verbatim>\<open>"total"\<close>.
\<close>

datatype cost_key = Forward | Backward | Total

type_synonym 'c cost_dict = "cost_key \<Rightarrow> 'c"

text \<open>
  \<^verbatim>\<open>ShardingStrategy\<close>, with the layout type \<open>'l\<close> (\<^verbatim>\<open>ShardingSpec\<close>) as a parameter.
  Dictionaries are association lists in insertion order; \<open>map_of\<close> is the lookup.
\<close>

record ('l, 'c) sharding_strategy =
  sharding_specs :: "(operation_data \<times> 'l) list"
  compute_cost :: "'c train_cycle_item"
  communication_cost :: "'c train_cycle_item"
  resharding_costs :: "(fx_node \<times> 'c train_cycle_item list) list"

text \<open>
  Modelled from the spec: \<^verbatim>\<open>ShardingStrategy.get_op_data_by_name\<close>, defined in
  \<^verbatim>\<open>colossalai.auto_parallel.tensor_shard.sharding_strategy\<close>, which is not part of the
  sources at hand. It returns the operand of the strategy that carries the given name
  (``the operand named \<open>name\<close>''); when the strategy has no such operand the lookup raises.
\<close>

fun get_op_data_by_name ::
  "('l, 'c) sharding_strategy \<Rightarrow> string \<Rightarrow> error + operation_data" where
  "get_op_data_by_name strategy n =
     (case find (\<lambda>(op_data, sharding_spec). name op_data = n) (sharding_specs strategy) of
        None \<Rightarrow> Inl (KeyError n)
      | Some (op_data, sharding_spec) \<Rightarrow> Inr op_data)"

text \<open>
  Modelled from the spec: \<^verbatim>\<open>ShardingStrategy.get_sharding_spec_by_name\<close>, from the same
  absent module: the layout the strategy assigns to the operand it exposes under the
  given name; when the strategy has no such operand the lookup raises.
\<close>

fun get_sharding_spec_by_name ::
  "('l, 'c) sharding_strategy \<Rightarrow> string \<Rightarrow> error + 'l" where
  "get_sharding_spec_by_name strategy n =
     (case find (\<lambda>(op_data, sharding_spec). name op_data = n) (sharding_specs strategy) of
        None \<Rightarrow> Inl (KeyError n)
      | Some (op_data, sharding_spec) \<Rightarrow> Inr sharding_spec)"

text \<open>
  What the handler reads from outside itself:
  \<^item> \<open>strategies_vector_of\<close>: the attribute \<^verbatim>\<open>strategies_vector\<close> of a graph node; \<open>None\<close>
    when \<^verbatim>\<open>hasattr(node, 'strategies_vector')\<close> is false;
  \<^item> \<open>shape_consistency\<close>: the cost dictionary returned by
    \<^verbatim>\<open>ShapeConsistencyManager().shape_consistency(prev, current)\<close>;
  \<^item> \<open>check_sharding_spec_validity\<close>: \<open>True\<close> when the call
    \<^verbatim>\<open>check_sharding_spec_validity(sharding_spec, tensor)\<close> returns, \<open>False\<close> when it raises.
\<close>

record ('l, 'c) environment =
  strategies_vector_of :: "fx_node \<Rightarrow> ('l, 'c) sharding_strategy list option"
  shape_consistency :: "'l \<Rightarrow> 'l \<Rightarrow> 'c cost_dict"
  check_sharding_spec_validity :: "'l \<Rightarrow> nat list \<Rightarrow> bool"

text \<open>
  A \<^verbatim>\<open>StrategyGenerator\<close> is used only through \<^verbatim>\<open>generate()\<close>; \<^verbatim>\<open>post_process\<close> returns one
  strategy or a list (or tuple) of strategies. The two hooks a subclass supplies are
  collected in \<open>handler_hooks\<close>.
\<close>

datatype ('l, 'c) strategy_generator =
  StrategyGenerator (generate: "('l, 'c) sharding_strategy list")

datatype ('l, 'c) post_processed =
    One "('l, 'c) sharding_strategy"
  | Several "('l, 'c) sharding_strategy list"

record ('l, 'c) handler_hooks =
  get_strategy_generator :: "('l, 'c) strategy_generator list"
  post_process :: "('l, 'c) sharding_strategy \<Rightarrow> ('l, 'c) post_processed"

text \<open>The state of a \<^verbatim>\<open>NodeHandler\<close> object.\<close>

record ('l, 'c) node_handler =
  node :: fx_node
  predecessor_node :: "fx_node list"
  successor_node :: "fx_node list"
  device_mesh :: "nat list"
  strategies_vector :: "('l, 'c) sharding_strategy list"

section \<open>NodeHandler\<close>

text \<open>
  \<^verbatim>\<open>NodeHandler.__init__\<close>: \<open>input_nodes\<close> and \<open>users\<close> are the keys of
  \<^verbatim>\<open>node._input_nodes\<close> and \<^verbatim>\<open>node.users\<close>, in order.
\<close>

definition NodeHandler_init ::
  "fx_node \<Rightarrow> fx_node list \<Rightarrow> fx_node list \<Rightarrow> nat list \<Rightarrow> ('l, 'c) sharding_strategy list
     \<Rightarrow> ('l, 'c) node_handler" where
  "NodeHandler_init n input_nodes users mesh vec =
     \<lparr>node = n, predecessor_node = input_nodes, successor_node = users,
      device_mesh = mesh, strategies_vector = vec\<rparr>"

text \<open>The default \<^verbatim>\<open>post_process\<close> returns its argument.\<close>

definition post_process_default ::
  "('l, 'c) sharding_strategy \<Rightarrow> ('l, 'c) post_processed" where
  "post_process_default strategy = One strategy"

subsection \<open>update_resharding_cost\<close>

text \<open>A list comprehension over calls that may raise: it stops at the first exception.\<close>

fun comprehension :: "('a \<Rightarrow> error + 'b) \<Rightarrow> 'a list \<Rightarrow> error + 'b list" where
  "comprehension f [] = Inr []"
| "comprehension f (x # xs) =
     (case f x of
        Inl e \<Rightarrow> Inl e
      | Inr y \<Rightarrow> (case comprehension f xs of Inl e \<Rightarrow> Inl e | Inr ys \<Rightarrow> Inr (y # ys)))"

text \<open>
  \<^verbatim>\<open>TrainCycleItem(fwd=resharding_cost["forward"], bwd=resharding_cost["backward"],
  total=resharding_cost["total"])\<close>
\<close>

definition make_train_cycle_item :: "'c cost_dict \<Rightarrow> 'c train_cycle_item" where
  "make_train_cycle_item resharding_cost =
     \<lparr>fwd = resharding_cost Forward, bwd = resharding_cost Backward,
      total = resharding_cost Total\<rparr>"

text \<open>
  The test \<^verbatim>\<open>op_data not in resharding_costs\<close> looks an \<^verbatim>\<open>OperationData\<close> up among keys
  that are all graph nodes. No operand equals a node, so the membership is false for every
  dictionary and the entry of the node is (re)initialised each time.
\<close>

definition op_data_in ::
  "operation_data \<Rightarrow> (fx_node \<times> 'c train_cycle_item list) list \<Rightarrow> bool" where
  "op_data_in op_data costs = False"

text \<open>
  The inner loop: \<^verbatim>\<open>resharding_costs[node].append(resharding_cost)\<close> for every layout of
  the predecessor. Reading \<^verbatim>\<open>resharding_costs[node]\<close> raises when the key is missing.
\<close>

fun append_resharding_costs ::
  "('l \<Rightarrow> 'l \<Rightarrow> 'c cost_dict) \<Rightarrow> fx_node \<Rightarrow> 'l \<Rightarrow> 'l list
     \<Rightarrow> (fx_node \<times> 'c train_cycle_item list) list
     \<Rightarrow> error + (fx_node \<times> 'c train_cycle_item list) list" where
  "append_resharding_costs oracle n current_sharding_spec [] costs = Inr costs"
| "append_resharding_costs oracle n current_sharding_spec (prev_sharding_spec # rest) costs =
     (case map_of costs n of
        None \<Rightarrow> Inl (KeyError (node_name n))
      | Some entry \<Rightarrow>
          append_resharding_costs oracle n current_sharding_spec rest
            (AList.update n
               (entry @ [make_train_cycle_item (oracle prev_sharding_spec current_sharding_spec)])
               costs))"

text \<open>The message of the assertion on a predecessor without \<^verbatim>\<open>strategies_vector\<close>.\<close>

definition no_strategy_vector_message :: "string \<Rightarrow> string" where
  "no_strategy_vector_message n =
     ''The predecessor node '' @ n @ '' has no strategy vector to compute the resharding cost.''"

text \<open>
  The loop over \<^verbatim>\<open>self.predecessor_node\<close>, with the local dictionary
  \<^verbatim>\<open>resharding_costs\<close> as accumulator. The steps of one iteration are in the order of the
  source: the assertion, the layouts of the predecessor's strategies, the operand of the
  current strategy and its layout, the initialisation of the entry, the inner loop.
\<close>

fun predecessor_loop ::
  "('l, 'c) environment \<Rightarrow> ('l, 'c) sharding_strategy \<Rightarrow> fx_node list
     \<Rightarrow> (fx_node \<times> 'c train_cycle_item list) list
     \<Rightarrow> error + (fx_node \<times> 'c train_cycle_item list) list" where
  "predecessor_loop env strategy [] costs = Inr costs"
| "predecessor_loop env strategy (n # rest) costs =
     (case strategies_vector_of env n of
        None \<Rightarrow> Inl (AssertionError (no_strategy_vector_message (node_name n)))
      | Some prev_strategy_vector \<Rightarrow>
         (case comprehension (\<lambda>prev_strategy. get_sharding_spec_by_name prev_strategy (node_name n))
                 prev_strategy_vector of
            Inl e \<Rightarrow> Inl e
          | Inr prev_sharding_specs \<Rightarrow>
             (case get_op_data_by_name strategy (node_name n) of
                Inl e \<Rightarrow> Inl e
              | Inr op_data \<Rightarrow>
                 (case map_of (sharding_specs strategy) op_data of
                    None \<Rightarrow> Inl (KeyError (name op_data))
                  | Some current_sharding_spec \<Rightarrow>
                     (case append_resharding_costs (shape_consistency env) n current_sharding_spec
                             prev_sharding_specs
                             (if \<not> op_data_in op_data costs then AList.update n [] costs
                              else costs) of
                        Inl e \<Rightarrow> Inl e
                      | Inr costs' \<Rightarrow> predecessor_loop env strategy rest costs')))))"

text \<open>
  \<^verbatim>\<open>update_resharding_cost\<close>: the field \<^verbatim>\<open>resharding_costs\<close> of the strategy is assigned
  after the loop, so a call that raises leaves the strategy as it was.
\<close>

definition update_resharding_cost ::
  "('l, 'c) environment \<Rightarrow> ('l, 'c) node_handler \<Rightarrow> ('l, 'c) sharding_strategy
     \<Rightarrow> error + ('l, 'c) sharding_strategy" where
  "update_resharding_cost env self strategy =
     (case predecessor_loop env strategy (predecessor_node self) [] of
        Inl e \<Rightarrow> Inl e
      | Inr costs \<Rightarrow> Inr (strategy\<lparr>resharding_costs := costs\<rparr>))"

subsection \<open>register_strategy\<close>

text \<open>
  The flattening of the post-processed strategies: a list or tuple is spliced in, a single
  strategy is appended.
\<close>

fun flatten_post_processed ::
  "('l, 'c) post_processed list \<Rightarrow> ('l, 'c) sharding_strategy list" where
  "flatten_post_processed [] = []"
| "flatten_post_processed (One strategy # rest) = strategy # flatten_post_processed rest"
| "flatten_post_processed (Several strategies # rest) =
     strategies @ flatten_post_processed rest"

definition post_processed_strategies ::
  "('l, 'c) handler_hooks \<Rightarrow> ('l, 'c) strategy_generator \<Rightarrow> ('l, 'c) sharding_strategy list" where
  "post_processed_strategies hooks generator =
     flatten_post_processed (map (post_process hooks) (generate generator))"

text \<open>
  The loop over the generators. The accumulator is \<^verbatim>\<open>self.strategies_vector\<close>, which
  \<^verbatim>\<open>extend\<close> mutates: the result pairs the vector as the loop leaves it with the exception
  that stopped the loop, if any. \<^verbatim>\<open>list(map(self.update_resharding_cost, ...))\<close> visits the
  candidates of one generator in order and stops at the first exception, before anything
  of that generator is appended. Strategies are values here: the annotation of a candidate
  object is visible through the strategy that is appended.
\<close>

fun generator_loop ::
  "('l, 'c) environment \<Rightarrow> ('l, 'c) handler_hooks \<Rightarrow> ('l, 'c) node_handler \<Rightarrow> bool
     \<Rightarrow> ('l, 'c) strategy_generator list \<Rightarrow> ('l, 'c) sharding_strategy list
     \<Rightarrow> ('l, 'c) sharding_strategy list \<times> error option" where
  "generator_loop env hooks self compute_resharding_cost [] vec = (vec, None)"
| "generator_loop env hooks self compute_resharding_cost (generator # rest) vec =
     (if compute_resharding_cost then
        (case comprehension (update_resharding_cost env self)
                (post_processed_strategies hooks generator) of
           Inl e \<Rightarrow> (vec, Some e)
         | Inr updated_strategies \<Rightarrow>
             generator_loop env hooks self compute_resharding_cost rest
               (vec @ updated_strategies))
      else
        generator_loop env hooks self compute_resharding_cost rest
          (vec @ post_processed_strategies hooks generator))"

text \<open>
  The validation loops: every strategy of the vector, every entry of its
  \<^verbatim>\<open>sharding_specs\<close>, checked when the operand's data is a tensor.
\<close>

fun validate_sharding_specs ::
  "('l \<Rightarrow> nat list \<Rightarrow> bool) \<Rightarrow> (operation_data \<times> 'l) list \<Rightarrow> error option" where
  "validate_sharding_specs check [] = None"
| "validate_sharding_specs check ((op_data, sharding_spec) # rest) =
     (case data op_data of
        TensorData tensor \<Rightarrow>
          (if check sharding_spec tensor then validate_sharding_specs check rest
           else Some InvalidLayoutError)
      | _ \<Rightarrow> validate_sharding_specs check rest)"

fun validate_strategies ::
  "('l \<Rightarrow> nat list \<Rightarrow> bool) \<Rightarrow> ('l, 'c) sharding_strategy list \<Rightarrow> error option" where
  "validate_strategies check [] = None"
| "validate_strategies check (strategy # rest) =
     (case validate_sharding_specs check (sharding_specs strategy) of
        Some e \<Rightarrow> Some e
      | None \<Rightarrow> validate_strategies check rest)"

text \<open>
  \<^verbatim>\<open>register_strategy\<close>. The first component of the result is \<^verbatim>\<open>self.strategies_vector\<close>
  when the call ends, whether it returns or raises; the second is the exception or the
  returned vector.
\<close>

definition register_strategy ::
  "('l, 'c) environment \<Rightarrow> ('l, 'c) handler_hooks \<Rightarrow> ('l, 'c) node_handler \<Rightarrow> bool
     \<Rightarrow> ('l, 'c) sharding_strategy list \<times> (error + ('l, 'c) sharding_strategy list)" where
  "register_strategy env hooks self compute_resharding_cost =
     (case generator_loop env hooks self compute_resharding_cost
             (get_strategy_generator hooks) (strategies_vector self) of
        (vec, Some e) \<Rightarrow> (vec, Inl e)
      | (vec, None) \<Rightarrow>
          (case validate_strategies (check_sharding_spec_validity env) vec of
             Some e \<Rightarrow> (vec, Inl e)
           | None \<Rightarrow> (vec, Inr vec)))"

section \<open>ModuleHandler\<close>

text \<open>
  What \<^verbatim>\<open>ModuleHandler\<close> reads from \<^verbatim>\<open>torch\<close>: a module through
  \<^verbatim>\<open>named_parameters(recurse=False)\<close> and \<^verbatim>\<open>named_buffers(recurse=False)\<close> (lists of pairs
  of a name and a tensor, kept as its shape), and the owning module of the graph through
  \<^verbatim>\<open>get_submodule\<close>, which raises when the target does not resolve.
\<close>

record torch_module =
  module_named_parameters :: "(string \<times> nat list) list"
  module_named_buffers :: "(string \<times> nat list) list"

record graph_module =
  get_submodule :: "string \<Rightarrow> error + torch_module"

text \<open>
  The part of a \<^verbatim>\<open>torch.fx\<close> node object the constructors read: the keys of
  \<^verbatim>\<open>_input_nodes\<close> and of \<^verbatim>\<open>users\<close>, \<^verbatim>\<open>target\<close> and \<^verbatim>\<open>graph.owning_module\<close>.
\<close>

record fx_node_object =
  this_node :: fx_node
  input_nodes :: "fx_node list"
  users :: "fx_node list"
  target :: string
  owning_module :: "graph_module option"

record ('l, 'c) module_handler = "('l, 'c) node_handler" +
  module :: torch_module
  named_parameters :: "(string \<times> nat list) list"
  named_buffers :: "(string \<times> nat list) list"

text \<open>
  The dictionary comprehension \<^verbatim>\<open>{k: v for k, v in pairs}\<close>: a later pair with the same key
  replaces the value and keeps the position of the key.
\<close>

definition dict_of_pairs :: "('k \<times> 'v) list \<Rightarrow> ('k \<times> 'v) list" where
  "dict_of_pairs pairs = foldl (\<lambda>d (k, v). AList.update k v d) [] pairs"

definition no_owning_module_message :: string where
  "no_owning_module_message =
     ''The graph is not associated with a module, please make sure it can be used to instantiate a GraphModule object.''"

text \<open>\<^verbatim>\<open>ModuleHandler.__init__\<close>: the base constructor, the assertion, the resolution.\<close>

definition ModuleHandler_init ::
  "fx_node_object \<Rightarrow> nat list \<Rightarrow> ('l, 'c) sharding_strategy list
     \<Rightarrow> error + ('l, 'c) module_handler" where
  "ModuleHandler_init node_object mesh vec =
     (let self = NodeHandler_init (this_node node_object) (input_nodes node_object)
                   (users node_object) mesh vec
      in case owning_module node_object of
           None \<Rightarrow> Inl (AssertionError no_owning_module_message)
         | Some owner \<Rightarrow>
             (case get_submodule owner (target node_object) of
                Inl e \<Rightarrow> Inl e
              | Inr m \<Rightarrow>
                  Inr (node_handler.extend self
                         \<lparr>module = m,
                          named_parameters = dict_of_pairs (module_named_parameters m),
                          named_buffers = dict_of_pairs (module_named_buffers m)\<rparr>)))"

section \<open>Specification-side notions\<close>

text \<open>
  The entry \<^verbatim>\<open>resharding_costs[node]\<close> that one iteration of the predecessor loop
  leaves behind, or the exception of that iteration: one cost item per strategy of the
  predecessor, in the order of its vector.
\<close>

definition entry_for ::
  "('l, 'c) environment \<Rightarrow> ('l, 'c) sharding_strategy \<Rightarrow> fx_node
     \<Rightarrow> error + 'c train_cycle_item list" where
  "entry_for env strategy n =
     (case strategies_vector_of env n of
        None \<Rightarrow> Inl (AssertionError (no_strategy_vector_message (node_name n)))
      | Some prev_strategy_vector \<Rightarrow>
         (case comprehension (\<lambda>prev_strategy. get_sharding_spec_by_name prev_strategy (node_name n))
                 prev_strategy_vector of
            Inl e \<Rightarrow> Inl e
          | Inr prev_sharding_specs \<Rightarrow>
             (case get_sharding_spec_by_name strategy (node_name n) of
                Inl e \<Rightarrow> Inl e
              | Inr current \<Rightarrow>
                  Inr (map (\<lambda>prev. make_train_cycle_item (shape_consistency env prev current))
                         prev_sharding_specs))))"

text \<open>
  The candidate sequence in the words of the specification: generator order, then the
  order of \<^verbatim>\<open>generate()\<close>, then the order of the fan-out of \<^verbatim>\<open>post_process\<close>.
\<close>

definition fan_out :: "('l, 'c) post_processed \<Rightarrow> ('l, 'c) sharding_strategy list" where
  "fan_out r = (case r of One strategy \<Rightarrow> [strategy] | Several strategies \<Rightarrow> strategies)"

definition candidates :: "('l, 'c) handler_hooks \<Rightarrow> ('l, 'c) sharding_strategy list" where
  "candidates hooks =
     concat (map (\<lambda>generator.
                    concat (map (\<lambda>strategy. fan_out (post_process hooks strategy))
                              (generate generator)))
               (get_strategy_generator hooks))"

text \<open>
  A strategy has valid layouts when the check accepts the layout of every operand whose
  data is a tensor.
\<close>

definition has_valid_layouts ::
  "('l \<Rightarrow> nat list \<Rightarrow> bool) \<Rightarrow> ('l, 'c) sharding_strategy \<Rightarrow> bool" where
  "has_valid_layouts check strategy =
     list_all (\<lambda>(op_data, sharding_spec).
                 case data op_data of
                   TensorData tensor \<Rightarrow> check sharding_spec tensor
                 | _ \<Rightarrow> True)
       (sharding_specs strategy)"


section \<open>A concrete layout type\<close>

text \<open>
  A partition layout as the specification describes it: the shape of the device mesh and,
  for each sharded tensor dimension, the mesh axes assigned to it.
\<close>

record sharding_spec =
  mesh_shape :: "nat list"
  dim_partition_dict :: "(nat \<times> nat list) list"

text \<open>
  Modelled from the spec: \<^verbatim>\<open>check_sharding_spec_validity\<close>, defined in
  \<^verbatim>\<open>colossalai.auto_parallel.tensor_shard.utils\<close>, which is not part of the sources at hand.
  A layout is valid for a tensor shape when every dimension it refers to exists in the
  tensor, every mesh axis it uses exists in the mesh, the size of a sharded dimension is
  divisible by the product of the sizes of its mesh axes, and no mesh axis is assigned to
  more than one dimension.
\<close>

definition sharding_spec_valid :: "sharding_spec \<Rightarrow> nat list \<Rightarrow> bool" where
  "sharding_spec_valid spec shape \<longleftrightarrow>
     list_all (\<lambda>(d, axes).
                 d < length shape \<and>
                 list_all (\<lambda>a. a < length (mesh_shape spec)) axes \<and>
                 (shape ! d) mod prod_list (map (\<lambda>a. mesh_shape spec ! a) axes) = 0)
       (dim_partition_dict spec) \<and>
     distinct (concat (map snd (dim_partition_dict spec)))"

section \<open>Example graphs\<close>

text \<open>Layouts over a mesh of shape \<open>(2, 2)\<close>.\<close>

definition shard_dim0 :: sharding_spec where
  "shard_dim0 = \<lparr>mesh_shape = [2, 2], dim_partition_dict = [(0, [0])]\<rparr>"

definition shard_dim1 :: sharding_spec where
  "shard_dim1 = \<lparr>mesh_shape = [2, 2], dim_partition_dict = [(1, [1])]\<rparr>"

definition replicated :: sharding_spec where
  "replicated = \<lparr>mesh_shape = [2, 2], dim_partition_dict = []\<rparr>"

definition axis_reused :: sharding_spec where
  "axis_reused = \<lparr>mesh_shape = [2, 2], dim_partition_dict = [(0, [0]), (1, [0])]\<rparr>"

definition no_cost :: "int train_cycle_item" where
  "no_cost = \<lparr>fwd = 0, bwd = 0, total = 0\<rparr>"

definition example_strategy ::
  "(operation_data \<times> sharding_spec) list \<Rightarrow> (sharding_spec, int) sharding_strategy" where
  "example_strategy specs =
     \<lparr>sharding_specs = specs, compute_cost = no_cost, communication_cost = no_cost,
      resharding_costs = []\<rparr>"

definition node_a :: fx_node where "node_a = FxNode ''a''"
definition node_b :: fx_node where "node_b = FxNode ''b''"
definition node_c :: fx_node where "node_c = FxNode ''c''"
definition node_d :: fx_node where "node_d = FxNode ''d''"

text \<open>
  A chain \<open>a \<rightarrow> b\<close>: node \<open>a\<close> has been processed and carries two strategies for its
  output, an \<open>8 \<times> 8\<close> tensor; nodes \<open>b\<close>, \<open>c\<close> and \<open>d\<close> carry no vector yet.
\<close>

definition output_a :: operation_data where
  "output_a = \<lparr>name = ''a'', role = OUTPUT, data = TensorData [8, 8]\<rparr>"

definition strategies_a :: "(sharding_spec, int) sharding_strategy list" where
  "strategies_a =
     [example_strategy [(output_a, shard_dim0)], example_strategy [(output_a, shard_dim1)]]"

text \<open>An oracle whose total is not the sum of its forward and backward costs.\<close>

definition example_oracle :: "sharding_spec \<Rightarrow> sharding_spec \<Rightarrow> int cost_dict" where
  "example_oracle prev current key =
     (if prev = current then 0
      else (case key of Forward \<Rightarrow> 2 | Backward \<Rightarrow> 3 | Total \<Rightarrow> 7))"

definition negative_oracle :: "sharding_spec \<Rightarrow> sharding_spec \<Rightarrow> int cost_dict" where
  "negative_oracle prev current key = - 1"

definition example_env :: "(sharding_spec, int) environment" where
  "example_env =
     \<lparr>strategies_vector_of = (\<lambda>n. if n = node_a then Some strategies_a else None),
      shape_consistency = example_oracle,
      check_sharding_spec_validity = sharding_spec_valid\<rparr>"

definition negative_env :: "(sharding_spec, int) environment" where
  "negative_env = example_env\<lparr>shape_consistency := negative_oracle\<rparr>"

text \<open>The candidate of node \<open>b\<close>: its argument is the output of \<open>a\<close>, replicated.\<close>

definition strategy_b :: "(sharding_spec, int) sharding_strategy" where
  "strategy_b =
     example_strategy
       [(\<lparr>name = ''a'', role = ARG, data = TensorData [8, 8]\<rparr>, replicated),
        (\<lparr>name = ''b'', role = OUTPUT, data = TensorData [8, 8]\<rparr>, replicated)]"

definition handler_b :: "(sharding_spec, int) node_handler" where
  "handler_b = NodeHandler_init node_b [node_a] [node_d] [2, 2] []"


text \<open>The candidate of node \<open>b\<close> with the costs of the transition from each strategy of \<open>a\<close>.\<close>

definition strategy_b_costed :: "(sharding_spec, int) sharding_strategy" where
  "strategy_b_costed =
     strategy_b\<lparr>resharding_costs :=
       [(node_a, [\<lparr>fwd = 2, bwd = 3, total = 7\<rparr>, \<lparr>fwd = 2, bwd = 3, total = 7\<rparr>])]\<rparr>"

text \<open>The same candidate when the oracle answers \<open>- 1\<close> for every key.\<close>

definition strategy_b_negative :: "(sharding_spec, int) sharding_strategy" where
  "strategy_b_negative =
     strategy_b\<lparr>resharding_costs :=
       [(node_a, [\<lparr>fwd = - 1, bwd = - 1, total = - 1\<rparr>, \<lparr>fwd = - 1, bwd = - 1, total = - 1\<rparr>])]\<rparr>"


text \<open>
  A node without predecessors whose output is a \<open>3 \<times> 8\<close> tensor, with two candidates:
  dimension 0 sharded over mesh axis 0 (3 is not divisible by 2) and dimension 1
  sharded over mesh axis 1.
\<close>

definition output_c :: operation_data where
  "output_c = \<lparr>name = ''c'', role = OUTPUT, data = TensorData [3, 8]\<rparr>"

definition handler_c :: "(sharding_spec, int) node_handler" where
  "handler_c = NodeHandler_init node_c [] [node_d] [2, 2] []"

definition strategy_c_dim0 :: "(sharding_spec, int) sharding_strategy" where
  "strategy_c_dim0 = example_strategy [(output_c, shard_dim0)]"

definition strategy_c_dim1 :: "(sharding_spec, int) sharding_strategy" where
  "strategy_c_dim1 = example_strategy [(output_c, shard_dim1)]"

definition strategy_c_replicated :: "(sharding_spec, int) sharding_strategy" where
  "strategy_c_replicated = example_strategy [(output_c, replicated)]"

definition hooks_c :: "(sharding_spec, int) handler_hooks" where
  "hooks_c =
     \<lparr>get_strategy_generator = [StrategyGenerator [strategy_c_dim0, strategy_c_dim1]],
      post_process = post_process_default\<rparr>"

text \<open>
  A candidate with three operands: a tensor with a valid layout, an operand without data
  and an operand whose data is not a tensor, the last two with a layout that uses mesh
  axis 0 for two dimensions.
\<close>

definition strategy_mixed :: "(sharding_spec, int) sharding_strategy" where
  "strategy_mixed =
     example_strategy
       [(output_c, shard_dim1),
        (\<lparr>name = ''w'', role = PARAM, data = NoData\<rparr>, axis_reused),
        (\<lparr>name = ''k'', role = ARG, data = OtherData\<rparr>, axis_reused)]"

definition hooks_mixed :: "(sharding_spec, int) handler_hooks" where
  "hooks_mixed =
     \<lparr>get_strategy_generator = [StrategyGenerator [strategy_mixed]],
      post_process = post_process_default\<rparr>"

text \<open>A post-processing hook that fans a strategy out into two copies.\<close>

definition hooks_fan_out :: "(sharding_spec, int) handler_hooks" where
  "hooks_fan_out =
     \<lparr>get_strategy_generator =
        [StrategyGenerator [strategy_c_dim1], StrategyGenerator [],
         StrategyGenerator [strategy_c_replicated]],
      post_process = (\<lambda>strategy. Several [strategy, strategy])\<rparr>"



text \<open>A graph module with one submodule, a linear layer.\<close>

definition linear_module :: torch_module where
  "linear_module =
     \<lparr>module_named_parameters = [(''weight'', [4, 8]), (''bias'', [4])],
      module_named_buffers = []\<rparr>"

definition example_owner :: graph_module where
  "example_owner =
     \<lparr>get_submodule =
        (\<lambda>t. if t = ''linear'' then Inr linear_module else Inl (AttributeError t))\<rparr>"

definition linear_node :: fx_node_object where
  "linear_node =
     \<lparr>this_node = node_b, input_nodes = [node_a], users = [node_d], target = ''linear'',
      owning_module = Some example_owner\<rparr>"

text \<open>
  The linear node when the graph has no owning module, and when its target does not name
  a submodule.
\<close>

definition detached_node :: fx_node_object where
  "detached_node = linear_node\<lparr>owning_module := None\<rparr>"

definition unresolved_node :: fx_node_object where
  "unresolved_node = linear_node\<lparr>target := ''conv''\<rparr>"

text \<open>The handler the constructor builds for the linear node.\<close>

definition linear_handler :: "(sharding_spec, int) module_handler" where
  "linear_handler =
     node_handler.extend (NodeHandler_init node_b [node_a] [node_d] [2, 2] [])
       \<lparr>module = linear_module,
        named_parameters = [(''weight'', [4, 8]), (''bias'', [4])],
        named_buffers = []\<rparr>"

section \<open>Auxiliary facts\<close>

subsection \<open>Comprehensions\<close>

lemma comprehension_Inr_D:
  "comprehension f xs = Inr ys \<Longrightarrow> list_all2 (\<lambda>x y. f x = Inr y) xs ys"
proof (induction xs arbitrary: ys)
  case Nil
  then show ?case by simp
next
  case (Cons x xs)
  from Cons.prems obtain y zs where fx: "f x = Inr y" and c: "comprehension f xs = Inr zs"
    and ys: "ys = y # zs"
    by (cases "f x"; cases "comprehension f xs") auto
  from Cons.IH [OF c] fx ys show ?case by simp
qed

lemma comprehension_Inr_I:
  "list_all2 (\<lambda>x y. f x = Inr y) xs ys \<Longrightarrow> comprehension f xs = Inr ys"
  by (induction xs ys rule: list_all2_induct) simp_all

lemma comprehension_Inl_D:
  "comprehension f xs = Inl e \<Longrightarrow> \<exists>x \<in> set xs. f x = Inl e"
proof (induction xs)
  case Nil
  then show ?case by simp
next
  case (Cons x xs)
  then show ?case
    by (cases "f x"; cases "comprehension f xs") auto
qed


subsection \<open>The predecessor loop\<close>

lemma append_resharding_costs_present:
  "map_of costs n = Some entry \<Longrightarrow>
   append_resharding_costs sc n cur prevs costs =
     Inr (AList.update n (entry @ map (\<lambda>prev. make_train_cycle_item (sc prev cur)) prevs) costs)"
proof (induction prevs arbitrary: costs entry)
  case Nil
  then show ?case by (simp add: update_triv)
next
  case (Cons p ps)
  have "map_of (AList.update n (entry @ [make_train_cycle_item (sc p cur)]) costs) n
          = Some (entry @ [make_train_cycle_item (sc p cur)])"
    by (simp add: update_conv')
  from Cons.IH [OF this] Cons.prems show ?case by simp
qed

lemma find_SomeD: "find P xs = Some x \<Longrightarrow> P x"
  by (induction xs) (auto split: if_splits)

lemma find_name_lookup:
  "find (\<lambda>(op_data, sharding_spec). name op_data = n) specs = Some (od, l) \<Longrightarrow>
   map_of specs od = Some l"
proof (induction specs)
  case Nil
  then show ?case by simp
next
  case (Cons a specs)
  obtain od' l' where a: "a = (od', l')" by (cases a)
  show ?case
  proof (cases "name od' = n")
    case True
    with Cons.prems a show ?thesis by simp
  next
    case False
    with Cons.prems a
    have f: "find (\<lambda>(op_data, sharding_spec). name op_data = n) specs = Some (od, l)"
      by simp
    from find_SomeD [OF f] have "name od = n" by simp
    with False have "od' \<noteq> od" by auto
    with Cons.IH [OF f] a show ?thesis by simp
  qed
qed

lemma predecessor_loop_Cons:
  "predecessor_loop env strategy (n # rest) costs =
     (case entry_for env strategy n of
        Inl e \<Rightarrow> Inl e
      | Inr entry \<Rightarrow> predecessor_loop env strategy rest (AList.update n entry costs))"
proof (cases "strategies_vector_of env n")
  case None
  then show ?thesis by (simp add: entry_for_def)
next
  case vec: (Some prev_strategy_vector)
  show ?thesis
  proof (cases "comprehension (\<lambda>prev_strategy. get_sharding_spec_by_name prev_strategy (node_name n))
                 prev_strategy_vector")
    case (Inl e)
    with vec show ?thesis by (simp add: entry_for_def)
  next
    case prevs: (Inr prev_sharding_specs)
    show ?thesis
    proof (cases "find (\<lambda>(op_data, sharding_spec). name op_data = node_name n)
                    (sharding_specs strategy)")
      case None
      with vec prevs show ?thesis by (simp add: entry_for_def)
    next
      case (Some p)
      obtain od l where p: "p = (od, l)" by (cases p)
      have m: "map_of (sharding_specs strategy) od = Some l"
        using Some p by (simp add: find_name_lookup)
      have "map_of (AList.update n [] costs) n = Some []"
        by (simp add: update_conv')
      from append_resharding_costs_present [OF this]
      have a: "append_resharding_costs (shape_consistency env) n l prev_sharding_specs
                 (AList.update n [] costs)
               = Inr (AList.update n
                        (map (\<lambda>prev. make_train_cycle_item (shape_consistency env prev l))
                           prev_sharding_specs) costs)"
        by simp
      show ?thesis
        using vec prevs Some p m a by (simp add: entry_for_def op_data_in_def)
    qed
  qed
qed


lemma predecessor_loop_Inr:
  "predecessor_loop env strategy ns costs = Inr result \<Longrightarrow>
     (\<forall>n \<in> set ns. \<exists>entry. entry_for env strategy n = Inr entry \<and> map_of result n = Some entry)
     \<and> (\<forall>n. n \<notin> set ns \<longrightarrow> map_of result n = map_of costs n)"
proof (induction ns arbitrary: costs)
  case Nil
  then show ?case by simp
next
  case (Cons x xs)
  from Cons.prems obtain entry where e: "entry_for env strategy x = Inr entry"
    and r: "predecessor_loop env strategy xs (AList.update x entry costs) = Inr result"
    unfolding predecessor_loop_Cons by (cases "entry_for env strategy x") auto
  note ih = Cons.IH [OF r]
  have x: "\<exists>entry. entry_for env strategy x = Inr entry \<and> map_of result x = Some entry"
  proof (cases "x \<in> set xs")
    case True
    with ih show ?thesis by blast
  next
    case False
    with ih have "map_of result x = map_of (AList.update x entry costs) x" by blast
    with e show ?thesis by (simp add: update_conv')
  qed
  have "map_of result n = map_of costs n" if "n \<notin> set (x # xs)" for n
  proof -
    from that ih have "map_of result n = map_of (AList.update x entry costs) n" by simp
    with that show ?thesis by (simp add: update_conv')
  qed
  with x ih show ?case by simp
qed


subsection \<open>update_resharding_cost\<close>

lemma get_sharding_spec_by_name_source:
  "get_sharding_spec_by_name strategy n = Inr l \<Longrightarrow>
   \<exists>op_data. get_op_data_by_name strategy n = Inr op_data
     \<and> map_of (sharding_specs strategy) op_data = Some l"
proof -
  assume a: "get_sharding_spec_by_name strategy n = Inr l"
  then obtain p where f: "find (\<lambda>(op_data, sharding_spec). name op_data = n)
                            (sharding_specs strategy) = Some p"
    by (cases "find (\<lambda>(op_data, sharding_spec). name op_data = n) (sharding_specs strategy)")
       auto
  obtain od l' where p: "p = (od, l')" by (cases p)
  from a f p have "l' = l" by simp
  with f p find_name_lookup [of n "sharding_specs strategy" od l] show ?thesis by simp
qed

lemma entry_for_Inr_D:
  assumes "entry_for env strategy n = Inr entry"
    and "strategies_vector_of env n = Some vec"
  shows "\<exists>current. get_sharding_spec_by_name strategy (node_name n) = Inr current
           \<and> length entry = length vec
           \<and> (\<forall>i < length vec. \<exists>prev.
                 get_sharding_spec_by_name (vec ! i) (node_name n) = Inr prev
                 \<and> entry ! i = make_train_cycle_item (shape_consistency env prev current))"
proof -
  from assms obtain prevs current where
    c: "comprehension (\<lambda>prev_strategy. get_sharding_spec_by_name prev_strategy (node_name n)) vec
          = Inr prevs"
    and cur: "get_sharding_spec_by_name strategy (node_name n) = Inr current"
    and entry: "entry = map (\<lambda>prev. make_train_cycle_item (shape_consistency env prev current)) prevs"
    unfolding entry_for_def
    by (cases "comprehension (\<lambda>prev_strategy. get_sharding_spec_by_name prev_strategy (node_name n)) vec";
        cases "get_sharding_spec_by_name strategy (node_name n)") auto
  from comprehension_Inr_D [OF c]
  have l: "list_all2 (\<lambda>x y. get_sharding_spec_by_name x (node_name n) = Inr y) vec prevs" .
  then have len: "length vec = length prevs" by (rule list_all2_lengthD)
  have "\<exists>prev. get_sharding_spec_by_name (vec ! i) (node_name n) = Inr prev
          \<and> entry ! i = make_train_cycle_item (shape_consistency env prev current)"
    if "i < length vec" for i
  proof -
    from l that have "get_sharding_spec_by_name (vec ! i) (node_name n) = Inr (prevs ! i)"
      by (rule list_all2_nthD)
    moreover from that len entry
    have "entry ! i = make_train_cycle_item (shape_consistency env (prevs ! i) current)"
      by simp
    ultimately show ?thesis by blast
  qed
  with cur len entry show ?thesis by simp
qed

lemma update_resharding_cost_Inr_D:
  assumes "update_resharding_cost env self strategy = Inr strategy'"
  shows "\<exists>costs. predecessor_loop env strategy (predecessor_node self) [] = Inr costs
           \<and> strategy' = strategy\<lparr>resharding_costs := costs\<rparr>"
  using assms unfolding update_resharding_cost_def
  by (cases "predecessor_loop env strategy (predecessor_node self) []") auto

lemma update_resharding_cost_entry:
  assumes "update_resharding_cost env self strategy = Inr strategy'"
    and "p \<in> set (predecessor_node self)"
  shows "\<exists>entry. entry_for env strategy p = Inr entry
           \<and> map_of (resharding_costs strategy') p = Some entry"
proof -
  from update_resharding_cost_Inr_D [OF assms(1)] obtain costs where
    l: "predecessor_loop env strategy (predecessor_node self) [] = Inr costs"
    and s: "strategy' = strategy\<lparr>resharding_costs := costs\<rparr>" by blast
  from predecessor_loop_Inr [OF l] assms(2) s show ?thesis by simp
qed

lemma example_update_b:
  "update_resharding_cost example_env handler_b strategy_b = Inr strategy_b_costed"
  by (simp add: update_resharding_cost_def handler_b_def NodeHandler_init_def example_env_def
      strategy_b_def strategy_b_costed_def example_strategy_def strategies_a_def output_a_def
      node_a_def op_data_in_def make_train_cycle_item_def example_oracle_def
      shard_dim0_def shard_dim1_def replicated_def)

text \<open>
  C2. For a strategy produced by \<open>update_resharding_cost\<close> and a predecessor \<open>p\<close> of the
  node with a strategies vector, the entry of \<open>p\<close> in the resharding costs has one item per
  strategy of \<open>p\<close>, and the item at index \<open>i\<close> is built from the cost the oracle returns for
  the layout that strategy \<open>i\<close> of \<open>p\<close> assigns to the shared operand and the layout the
  current strategy assigns to it.
\<close>

theorem resharding_costs_aligned:
  assumes "update_resharding_cost env self strategy = Inr strategy'"
    and "p \<in> set (predecessor_node self)"
    and "strategies_vector_of env p = Some vec"
  shows "\<exists>costs op_data current.
           map_of (resharding_costs strategy') p = Some costs
           \<and> length costs = length vec
           \<and> sharding_specs strategy' = sharding_specs strategy
           \<and> get_op_data_by_name strategy (node_name p) = Inr op_data
           \<and> map_of (sharding_specs strategy) op_data = Some current
           \<and> (\<forall>i < length vec. \<exists>prev.
                 get_sharding_spec_by_name (vec ! i) (node_name p) = Inr prev
                 \<and> costs ! i = make_train_cycle_item (shape_consistency env prev current))"
proof -
  from update_resharding_cost_entry [OF assms(1,2)] obtain entry where
    e: "entry_for env strategy p = Inr entry"
    and m: "map_of (resharding_costs strategy') p = Some entry" by blast
  from entry_for_Inr_D [OF e assms(3)] obtain current where
    cur: "get_sharding_spec_by_name strategy (node_name p) = Inr current"
    and len: "length entry = length vec"
    and items: "\<forall>i < length vec. \<exists>prev.
                 get_sharding_spec_by_name (vec ! i) (node_name p) = Inr prev
                 \<and> entry ! i = make_train_cycle_item (shape_consistency env prev current)"
    by blast
  from get_sharding_spec_by_name_source [OF cur] obtain op_data where
    od: "get_op_data_by_name strategy (node_name p) = Inr op_data"
    and l: "map_of (sharding_specs strategy) op_data = Some current" by blast
  from update_resharding_cost_Inr_D [OF assms(1)]
  have "sharding_specs strategy' = sharding_specs strategy" by auto
  with m len od l items show ?thesis by blast
qed

theorem resharding_costs_aligned_witness:
  "update_resharding_cost example_env handler_b strategy_b = Inr strategy_b_costed
   \<and> node_a \<in> set (predecessor_node handler_b)
   \<and> strategies_vector_of example_env node_a = Some strategies_a
   \<and> (\<exists>costs op_data current.
         map_of (resharding_costs strategy_b_costed) node_a = Some costs
         \<and> length costs = length strategies_a
         \<and> sharding_specs strategy_b_costed = sharding_specs strategy_b
         \<and> get_op_data_by_name strategy_b (node_name node_a) = Inr op_data
         \<and> map_of (sharding_specs strategy_b) op_data = Some current
         \<and> (\<forall>i < length strategies_a. \<exists>prev.
               get_sharding_spec_by_name (strategies_a ! i) (node_name node_a) = Inr prev
               \<and> costs ! i = make_train_cycle_item (shape_consistency example_env prev current)))"
proof -
  have h2: "node_a \<in> set (predecessor_node handler_b)"
    by (simp add: handler_b_def NodeHandler_init_def)
  have h3: "strategies_vector_of example_env node_a = Some strategies_a"
    by (simp add: example_env_def)
  from resharding_costs_aligned [OF example_update_b h2 h3] example_update_b h2 h3
  show ?thesis by blast
qed

lemma update_resharding_cost_item:
  assumes "update_resharding_cost env self strategy = Inr strategy'"
    and "p \<in> set (predecessor_node self)"
    and "strategies_vector_of env p = Some vec"
    and "i < length vec"
  shows "\<exists>costs prev current.
           map_of (resharding_costs strategy') p = Some costs
           \<and> get_sharding_spec_by_name (vec ! i) (node_name p) = Inr prev
           \<and> get_sharding_spec_by_name strategy (node_name p) = Inr current
           \<and> costs ! i = make_train_cycle_item (shape_consistency env prev current)"
proof -
  from update_resharding_cost_entry [OF assms(1,2)] obtain entry where
    e: "entry_for env strategy p = Inr entry"
    and m: "map_of (resharding_costs strategy') p = Some entry" by blast
  from entry_for_Inr_D [OF e assms(3)] assms(4) m show ?thesis by blast
qed

text \<open>
  C6. Every item stored in the resharding costs of a strategy carries the forward, the
  backward and the total value of the oracle's answer unchanged; the total is the
  oracle's total, not a value computed from the other two.
\<close>

theorem oracle_costs_propagated:
  assumes "update_resharding_cost env self strategy = Inr strategy'"
    and "p \<in> set (predecessor_node self)"
    and "strategies_vector_of env p = Some vec"
    and "i < length vec"
  shows "\<exists>costs prev current.
           map_of (resharding_costs strategy') p = Some costs
           \<and> get_sharding_spec_by_name (vec ! i) (node_name p) = Inr prev
           \<and> get_sharding_spec_by_name strategy (node_name p) = Inr current
           \<and> fwd (costs ! i) = shape_consistency env prev current Forward
           \<and> bwd (costs ! i) = shape_consistency env prev current Backward
           \<and> total (costs ! i) = shape_consistency env prev current Total"
proof -
  from update_resharding_cost_item [OF assms] obtain costs prev current where
    "map_of (resharding_costs strategy') p = Some costs"
    "get_sharding_spec_by_name (vec ! i) (node_name p) = Inr prev"
    "get_sharding_spec_by_name strategy (node_name p) = Inr current"
    "costs ! i = make_train_cycle_item (shape_consistency env prev current)" by blast
  then show ?thesis by (auto simp add: make_train_cycle_item_def)
qed

theorem oracle_costs_propagated_witness:
  "update_resharding_cost example_env handler_b strategy_b = Inr strategy_b_costed
   \<and> node_a \<in> set (predecessor_node handler_b)
   \<and> strategies_vector_of example_env node_a = Some strategies_a
   \<and> 0 < length strategies_a
   \<and> (\<exists>costs prev current.
         map_of (resharding_costs strategy_b_costed) node_a = Some costs
         \<and> get_sharding_spec_by_name (strategies_a ! 0) (node_name node_a) = Inr prev
         \<and> get_sharding_spec_by_name strategy_b (node_name node_a) = Inr current
         \<and> fwd (costs ! 0) = shape_consistency example_env prev current Forward
         \<and> bwd (costs ! 0) = shape_consistency example_env prev current Backward
         \<and> total (costs ! 0) = shape_consistency example_env prev current Total)"
proof -
  have h2: "node_a \<in> set (predecessor_node handler_b)"
    by (simp add: handler_b_def NodeHandler_init_def)
  have h3: "strategies_vector_of example_env node_a = Some strategies_a"
    by (simp add: example_env_def)
  have h4: "0 < length strategies_a"
    by (simp add: strategies_a_def)
  from oracle_costs_propagated [OF example_update_b h2 h3 h4] example_update_b h2 h3 h4
  show ?thesis by blast
qed

subsection \<open>Failures of update_resharding_cost\<close>

lemma entry_for_Inl_oracle:
  assumes "strategies_vector_of env' = strategies_vector_of env"
  shows "(entry_for env' strategy n = Inl e) = (entry_for env strategy n = Inl e)"
proof (cases "strategies_vector_of env n")
  case None
  with assms show ?thesis by (simp add: entry_for_def)
next
  case (Some vec)
  with assms have v: "strategies_vector_of env' n = Some vec" by simp
  show ?thesis
    unfolding entry_for_def v Some
    by (cases "comprehension (\<lambda>prev_strategy. get_sharding_spec_by_name prev_strategy (node_name n)) vec";
        cases "get_sharding_spec_by_name strategy (node_name n)") simp_all
qed

lemma predecessor_loop_Inl_oracle:
  assumes "strategies_vector_of env' = strategies_vector_of env"
  shows "(predecessor_loop env' strategy ns costs' = Inl e)
           = (predecessor_loop env strategy ns costs = Inl e)"
proof (induction ns arbitrary: costs costs')
  case Nil
  show ?case by simp
next
  case (Cons x xs)
  note indep = entry_for_Inl_oracle [OF assms, of strategy x]
  show ?case
  proof (cases "entry_for env strategy x")
    case (Inl e0)
    with indep [of e0] have "entry_for env' strategy x = Inl e0" by simp
    with Inl show ?thesis unfolding predecessor_loop_Cons by simp
  next
    case (Inr entry)
    have "\<exists>entry'. entry_for env' strategy x = Inr entry'"
    proof (cases "entry_for env' strategy x")
      case (Inl e0)
      with indep [of e0] Inr show ?thesis by simp
    next
      case (Inr entry')
      then show ?thesis by blast
    qed
    then obtain entry' where "entry_for env' strategy x = Inr entry'" by blast
    with Inr Cons.IH show ?thesis unfolding predecessor_loop_Cons by simp
  qed
qed

lemma update_resharding_cost_Inl_iff:
  "(update_resharding_cost env self strategy = Inl e)
     = (predecessor_loop env strategy (predecessor_node self) [] = Inl e)"
  unfolding update_resharding_cost_def
  by (cases "predecessor_loop env strategy (predecessor_node self) []") simp_all

lemma example_update_b_negative:
  "update_resharding_cost negative_env handler_b strategy_b = Inr strategy_b_negative"
  by (simp add: update_resharding_cost_def handler_b_def NodeHandler_init_def example_env_def
      negative_env_def strategy_b_def strategy_b_negative_def example_strategy_def
      strategies_a_def output_a_def node_a_def op_data_in_def make_train_cycle_item_def
      negative_oracle_def shard_dim0_def shard_dim1_def replicated_def)

text \<open>
  C5, as the specification states it, fails: with an oracle whose answers are negative,
  \<open>update_resharding_cost\<close> raises nothing and stores the negative costs.
\<close>

theorem negative_cost_stored_counterexample:
  "shape_consistency negative_env shard_dim0 replicated Total < 0
   \<and> update_resharding_cost negative_env handler_b strategy_b = Inr strategy_b_negative
   \<and> map_of (resharding_costs strategy_b_negative) node_a
       = Some [\<lparr>fwd = - 1, bwd = - 1, total = - 1\<rparr>, \<lparr>fwd = - 1, bwd = - 1, total = - 1\<rparr>]"
  using example_update_b_negative
  by (simp add: negative_env_def negative_oracle_def strategy_b_negative_def)

text \<open>
  C5, amended. The handler makes no check of the oracle's answer: whether
  \<open>update_resharding_cost\<close> raises, and which exception, is the same for every oracle, and
  when it returns, each stored item is built from the oracle's answer whatever its values.
\<close>

theorem oracle_costs_unchecked:
  assumes "strategies_vector_of env' = strategies_vector_of env"
  shows "(update_resharding_cost env' self strategy = Inl e)
           = (update_resharding_cost env self strategy = Inl e)
         \<and> (\<forall>strategy' p vec i.
               update_resharding_cost env' self strategy = Inr strategy'
               \<and> p \<in> set (predecessor_node self)
               \<and> strategies_vector_of env' p = Some vec \<and> i < length vec \<longrightarrow>
               (\<exists>costs prev current.
                  map_of (resharding_costs strategy') p = Some costs
                  \<and> get_sharding_spec_by_name (vec ! i) (node_name p) = Inr prev
                  \<and> get_sharding_spec_by_name strategy (node_name p) = Inr current
                  \<and> costs ! i = make_train_cycle_item (shape_consistency env' prev current)))"
proof -
  have "(update_resharding_cost env' self strategy = Inl e)
          = (update_resharding_cost env self strategy = Inl e)"
    unfolding update_resharding_cost_Inl_iff
    by (rule predecessor_loop_Inl_oracle [OF assms])
  moreover have "\<exists>costs prev current.
        map_of (resharding_costs strategy') p = Some costs
        \<and> get_sharding_spec_by_name (vec ! i) (node_name p) = Inr prev
        \<and> get_sharding_spec_by_name strategy (node_name p) = Inr current
        \<and> costs ! i = make_train_cycle_item (shape_consistency env' prev current)"
    if "update_resharding_cost env' self strategy = Inr strategy'
        \<and> p \<in> set (predecessor_node self)
        \<and> strategies_vector_of env' p = Some vec \<and> i < length vec"
    for strategy' p vec i
    using update_resharding_cost_item [of env' self strategy strategy' p vec i] that by blast
  ultimately show ?thesis by blast
qed

theorem oracle_costs_unchecked_witness:
  "strategies_vector_of negative_env = strategies_vector_of example_env
   \<and> update_resharding_cost negative_env handler_b strategy_b = Inr strategy_b_negative
   \<and> node_a \<in> set (predecessor_node handler_b)
   \<and> strategies_vector_of negative_env node_a = Some strategies_a
   \<and> (1::nat) < length strategies_a
   \<and> (update_resharding_cost negative_env handler_b strategy_b
          = Inl (AssertionError (no_strategy_vector_message ''a'')))
       = (update_resharding_cost example_env handler_b strategy_b
          = Inl (AssertionError (no_strategy_vector_message ''a'')))
   \<and> (\<exists>costs prev current.
         map_of (resharding_costs strategy_b_negative) node_a = Some costs
         \<and> get_sharding_spec_by_name (strategies_a ! 1) (node_name node_a) = Inr prev
         \<and> get_sharding_spec_by_name strategy_b (node_name node_a) = Inr current
         \<and> costs ! 1 = make_train_cycle_item (shape_consistency negative_env prev current))"
proof -
  have h1: "strategies_vector_of negative_env = strategies_vector_of example_env"
    by (simp add: negative_env_def)
  have h2: "node_a \<in> set (predecessor_node handler_b)"
    by (simp add: handler_b_def NodeHandler_init_def)
  have h3: "strategies_vector_of negative_env node_a = Some strategies_a"
    by (simp add: negative_env_def example_env_def)
  have h4: "(1::nat) < length strategies_a"
    by (simp add: strategies_a_def)
  from oracle_costs_unchecked [OF h1, of handler_b strategy_b
      "AssertionError (no_strategy_vector_message ''a'')"]
    example_update_b_negative h1 h2 h3 h4
  show ?thesis by blast
qed

subsection \<open>The generator loop\<close>

lemma flatten_fan_out: "flatten_post_processed rs = concat (map fan_out rs)"
  by (induction rs rule: flatten_post_processed.induct) (simp_all add: fan_out_def)

lemma candidates_generators:
  "candidates hooks
     = concat (map (post_processed_strategies hooks) (get_strategy_generator hooks))"
proof -
  have "post_processed_strategies hooks
          = (\<lambda>g. concat (map (\<lambda>strategy. fan_out (post_process hooks strategy)) (generate g)))"
    by (rule ext) (simp add: post_processed_strategies_def flatten_fan_out comp_def)
  then show ?thesis by (simp add: candidates_def)
qed

lemma generator_loop_False:
  "generator_loop env hooks self False gens vec
     = (vec @ concat (map (post_processed_strategies hooks) gens), None)"
  by (induction gens arbitrary: vec) simp_all

lemma generator_loop_True:
  "\<exists>new. fst (generator_loop env hooks self True gens vec) = vec @ new
     \<and> list_all2 (\<lambda>s s'. update_resharding_cost env self s = Inr s')
          (take (length new) (concat (map (post_processed_strategies hooks) gens))) new
     \<and> (snd (generator_loop env hooks self True gens vec) = None \<longrightarrow>
          length new = length (concat (map (post_processed_strategies hooks) gens)))"
  (is "\<exists>new. ?P gens vec new")
proof (induction gens arbitrary: vec)
  case Nil
  have "?P [] vec []" by simp
  then show ?case by (rule exI)
next
  case (Cons g gs)
  show ?case
  proof (cases "comprehension (update_resharding_cost env self)
                  (post_processed_strategies hooks g)")
    case (Inl e)
    then have "generator_loop env hooks self True (g # gs) vec = (vec, Some e)" by simp
    then have "?P (g # gs) vec []" by simp
    then show ?thesis by (rule exI)
  next
    case (Inr new1)
    then have step: "generator_loop env hooks self True (g # gs) vec
                       = generator_loop env hooks self True gs (vec @ new1)" by simp
    from comprehension_Inr_D [OF Inr]
    have l1: "list_all2 (\<lambda>s s'. update_resharding_cost env self s = Inr s')
                (post_processed_strategies hooks g) new1" .
    then have len1: "length (post_processed_strategies hooks g) = length new1"
      by (rule list_all2_lengthD)
    from Cons.IH [of "vec @ new1"] obtain new2 where ih: "?P gs (vec @ new1) new2" ..
    then have f: "fst (generator_loop env hooks self True gs (vec @ new1)) = (vec @ new1) @ new2"
      and l2: "list_all2 (\<lambda>s s'. update_resharding_cost env self s = Inr s')
                 (take (length new2) (concat (map (post_processed_strategies hooks) gs))) new2"
      and n: "snd (generator_loop env hooks self True gs (vec @ new1)) = None \<longrightarrow>
                length new2 = length (concat (map (post_processed_strategies hooks) gs))"
      by (rule conjunct1, rule conjunct2 [THEN conjunct1], rule conjunct2 [THEN conjunct2])
    have t: "take (length (new1 @ new2))
               (concat (map (post_processed_strategies hooks) (g # gs)))
             = post_processed_strategies hooks g
               @ take (length new2) (concat (map (post_processed_strategies hooks) gs))"
      using len1 by simp
    have a: "list_all2 (\<lambda>s s'. update_resharding_cost env self s = Inr s')
            (take (length (new1 @ new2))
               (concat (map (post_processed_strategies hooks) (g # gs)))) (new1 @ new2)"
      unfolding t using l1 l2 by (rule list_all2_appendI)
    have b: "fst (generator_loop env hooks self True (g # gs) vec) = vec @ (new1 @ new2)"
      unfolding step f by simp
    have c: "snd (generator_loop env hooks self True (g # gs) vec) = None \<longrightarrow>
        length (new1 @ new2) = length (concat (map (post_processed_strategies hooks) (g # gs)))"
      unfolding step using n len1 by simp
    have "?P (g # gs) vec (new1 @ new2)"
      by (intro conjI a b c)
    then show ?thesis by (rule exI)
  qed
qed

lemma generator_loop_True_Inr:
  "list_all2 (\<lambda>s s'. update_resharding_cost env self s = Inr s')
     (concat (map (post_processed_strategies hooks) gens)) new \<Longrightarrow>
   generator_loop env hooks self True gens vec = (vec @ new, None)"
proof (induction gens arbitrary: vec new)
  case Nil
  then show ?case by simp
next
  case (Cons g gs)
  from Cons.prems obtain new1 new2 where new: "new = new1 @ new2"
    and l1: "list_all2 (\<lambda>s s'. update_resharding_cost env self s = Inr s')
               (post_processed_strategies hooks g) new1"
    and l2: "list_all2 (\<lambda>s s'. update_resharding_cost env self s = Inr s')
               (concat (map (post_processed_strategies hooks) gs)) new2"
    by (auto simp add: list_all2_append1)
  from comprehension_Inr_I [OF l1] Cons.IH [OF l2, of "vec @ new1"] new
  show ?case by simp
qed


subsection \<open>Validation\<close>

lemma validate_sharding_specs_None:
  "(validate_sharding_specs check specs = None)
     = list_all (\<lambda>(op_data, sharding_spec).
                   case data op_data of
                     TensorData tensor \<Rightarrow> check sharding_spec tensor
                   | _ \<Rightarrow> True) specs"
  by (induction check specs rule: validate_sharding_specs.induct)
     (simp_all split: operand_data.splits)

lemma validate_sharding_specs_Some:
  "validate_sharding_specs check specs = Some e \<Longrightarrow> e = InvalidLayoutError"
  by (induction check specs rule: validate_sharding_specs.induct)
     (simp_all split: operand_data.splits if_splits)

lemma validate_strategies_None:
  "(validate_strategies check vec = None) = list_all (has_valid_layouts check) vec"
proof (induction vec)
  case Nil
  show ?case by simp
next
  case (Cons s vec)
  show ?case
    by (cases "validate_sharding_specs check (sharding_specs s)")
       (use Cons validate_sharding_specs_None [of check "sharding_specs s"] in
         \<open>simp_all add: has_valid_layouts_def\<close>)
qed

lemma validate_strategies_Some:
  "validate_strategies check vec = Some e \<Longrightarrow> e = InvalidLayoutError"
proof (induction vec)
  case Nil
  then show ?case by simp
next
  case (Cons s vec)
  then show ?case
    by (cases "validate_sharding_specs check (sharding_specs s)")
       (auto dest: validate_sharding_specs_Some)
qed

lemma validate_strategies_cases:
  "validate_strategies check vec
     = (if list_all (has_valid_layouts check) vec then None else Some InvalidLayoutError)"
proof (cases "validate_strategies check vec")
  case None
  then show ?thesis by (simp add: validate_strategies_None [symmetric])
next
  case (Some e)
  with validate_strategies_Some [OF Some] show ?thesis
    by (simp add: validate_strategies_None [symmetric])
qed

subsection \<open>register_strategy\<close>

lemma register_strategy_loop_ok:
  assumes "generator_loop env hooks self c (get_strategy_generator hooks)
             (strategies_vector self) = (vec, None)"
  shows "register_strategy env hooks self c
           = (vec, if list_all (has_valid_layouts (check_sharding_spec_validity env)) vec
                   then Inr vec else Inl InvalidLayoutError)"
  using assms by (simp add: register_strategy_def validate_strategies_cases)

lemma register_strategy_loop_fail:
  assumes "generator_loop env hooks self c (get_strategy_generator hooks)
             (strategies_vector self) = (vec, Some e)"
  shows "register_strategy env hooks self c = (vec, Inl e)"
  using assms by (simp add: register_strategy_def)

lemma register_strategy_False:
  "register_strategy env hooks self False
     = (strategies_vector self @ candidates hooks,
        if list_all (has_valid_layouts (check_sharding_spec_validity env))
             (strategies_vector self @ candidates hooks)
        then Inr (strategies_vector self @ candidates hooks) else Inl InvalidLayoutError)"
  by (rule register_strategy_loop_ok) (simp add: generator_loop_False candidates_generators)

lemma register_strategy_True:
  assumes "list_all2 (\<lambda>s s'. update_resharding_cost env self s = Inr s') (candidates hooks) new"
  shows "register_strategy env hooks self True
     = (strategies_vector self @ new,
        if list_all (has_valid_layouts (check_sharding_spec_validity env))
             (strategies_vector self @ new)
        then Inr (strategies_vector self @ new) else Inl InvalidLayoutError)"
  by (rule register_strategy_loop_ok)
     (use assms in \<open>simp add: generator_loop_True_Inr candidates_generators\<close>)

lemma register_strategy_fst:
  "fst (register_strategy env hooks self c)
     = fst (generator_loop env hooks self c (get_strategy_generator hooks)
              (strategies_vector self))"
proof (cases "generator_loop env hooks self c (get_strategy_generator hooks)
                (strategies_vector self)")
  case (Pair vec r)
  then show ?thesis
    by (cases r) (simp_all add: register_strategy_loop_ok register_strategy_loop_fail)
qed

lemma register_strategy_Inr_D:
  assumes "snd (register_strategy env hooks self c) = Inr v"
  shows "v = fst (register_strategy env hooks self c)
         \<and> list_all (has_valid_layouts (check_sharding_spec_validity env)) v
         \<and> snd (generator_loop env hooks self c (get_strategy_generator hooks)
                  (strategies_vector self)) = None"
proof (cases "generator_loop env hooks self c (get_strategy_generator hooks)
                (strategies_vector self)")
  case (Pair vec r)
  show ?thesis
  proof (cases r)
    case None
    with Pair assms register_strategy_loop_ok [of env hooks self c vec] show ?thesis
      by (auto split: if_splits)
  next
    case (Some e)
    with Pair assms register_strategy_loop_fail [of env hooks self c vec e] show ?thesis
      by simp
  qed
qed

subsection \<open>Predecessors without a strategies vector\<close>









subsection \<open>The order of the committed candidates\<close>

lemma register_strategy_True_fst:
  "\<exists>new. fst (register_strategy env hooks self True) = strategies_vector self @ new
     \<and> list_all2 (\<lambda>s s'. update_resharding_cost env self s = Inr s')
          (take (length new) (candidates hooks)) new
     \<and> (\<forall>v. snd (register_strategy env hooks self True) = Inr v \<longrightarrow>
          length new = length (candidates hooks))"
proof -
  from generator_loop_True [of env hooks self "get_strategy_generator hooks"
      "strategies_vector self"]
  obtain new where
    f: "fst (generator_loop env hooks self True (get_strategy_generator hooks)
              (strategies_vector self)) = strategies_vector self @ new"
    and l: "list_all2 (\<lambda>s s'. update_resharding_cost env self s = Inr s')
              (take (length new) (candidates hooks)) new"
    and n: "snd (generator_loop env hooks self True (get_strategy_generator hooks)
                  (strategies_vector self)) = None \<longrightarrow>
            length new = length (candidates hooks)"
    unfolding candidates_generators by (elim exE conjE)
  have "length new = length (candidates hooks)"
    if "snd (register_strategy env hooks self True) = Inr v" for v
    using register_strategy_Inr_D [OF that] n by simp
  with f l show ?thesis unfolding register_strategy_fst by blast
qed

lemma register_strategy_Inr_new:
  assumes "snd (register_strategy env hooks self c) = Inr v"
  shows "\<exists>new. v = strategies_vector self @ new
           \<and> (if c then list_all2 (\<lambda>s s'. update_resharding_cost env self s = Inr s')
                          (candidates hooks) new
               else new = candidates hooks)"
proof (cases c)
  case False
  with register_strategy_Inr_D [OF assms] show ?thesis
    by (simp add: register_strategy_False)
next
  case True
  from register_strategy_True_fst [of env hooks self] obtain new where
    f: "fst (register_strategy env hooks self True) = strategies_vector self @ new"
    and l: "list_all2 (\<lambda>s s'. update_resharding_cost env self s = Inr s')
              (take (length new) (candidates hooks)) new"
    and n: "\<forall>v. snd (register_strategy env hooks self True) = Inr v \<longrightarrow>
              length new = length (candidates hooks)"
    by (elim exE conjE)
  from n assms True have "length new = length (candidates hooks)" by simp
  with l have "list_all2 (\<lambda>s s'. update_resharding_cost env self s = Inr s')
                 (candidates hooks) new" by simp
  moreover from register_strategy_Inr_D [OF assms] f True
  have "v = strategies_vector self @ new" by simp
  ultimately show ?thesis using True by simp
qed

lemma update_resharding_cost_no_predecessor:
  "predecessor_node self = [] \<Longrightarrow>
   update_resharding_cost env self strategy = Inr (strategy\<lparr>resharding_costs := []\<rparr>)"
  by (simp add: update_resharding_cost_def)

lemma example_update_c:
  "update_resharding_cost example_env handler_c (example_strategy specs)
     = Inr (example_strategy specs)"
proof -
  have "predecessor_node handler_c = []"
    by (simp add: handler_c_def NodeHandler_init_def)
  from update_resharding_cost_no_predecessor [OF this] show ?thesis
    by (simp add: example_strategy_def)
qed

lemma example_candidates_fan_out:
  "candidates hooks_fan_out
     = [strategy_c_dim1, strategy_c_dim1, strategy_c_replicated, strategy_c_replicated]"
  by (simp add: candidates_def hooks_fan_out_def fan_out_def)

lemma example_updates_fan_out:
  "list_all2 (\<lambda>s s'. update_resharding_cost example_env handler_c s = Inr s')
     (candidates hooks_fan_out)
     [strategy_c_dim1, strategy_c_dim1, strategy_c_replicated, strategy_c_replicated]"
  unfolding example_candidates_fan_out
  by (simp add: strategy_c_dim1_def strategy_c_replicated_def example_update_c)

lemma example_valid_c:
  "\<not> has_valid_layouts sharding_spec_valid strategy_c_dim0"
  "has_valid_layouts sharding_spec_valid strategy_c_dim1"
  "has_valid_layouts sharding_spec_valid strategy_c_replicated"
  by (simp_all add: has_valid_layouts_def strategy_c_dim0_def strategy_c_dim1_def
      strategy_c_replicated_def example_strategy_def output_c_def sharding_spec_valid_def
      shard_dim0_def shard_dim1_def replicated_def)

lemma example_register_fan_out:
  "register_strategy example_env hooks_fan_out handler_c True
     = ([strategy_c_dim1, strategy_c_dim1, strategy_c_replicated, strategy_c_replicated],
        Inr [strategy_c_dim1, strategy_c_dim1, strategy_c_replicated, strategy_c_replicated])"
proof -
  have "strategies_vector handler_c = []"
    by (simp add: handler_c_def NodeHandler_init_def)
  moreover have "check_sharding_spec_validity example_env = sharding_spec_valid"
    by (simp add: example_env_def)
  ultimately show ?thesis
    using register_strategy_True [OF example_updates_fan_out]
    by (simp add: example_valid_c)
qed

text \<open>
  C4. The strategies \<open>register_strategy\<close> appends are the candidates in the order of the
  generators, then of the output of \<open>generate\<close>, then of the fan-out of \<open>post_process\<close>:
  without the cost computation the vector is the old vector followed by the candidates;
  with it, by their cost-annotated versions in the same order; and a returned vector has
  one new strategy per candidate, equal to it except for the resharding costs.
\<close>

theorem register_strategy_order:
  "fst (register_strategy env hooks self False) = strategies_vector self @ candidates hooks
   \<and> (\<forall>new. list_all2 (\<lambda>s s'. update_resharding_cost env self s = Inr s')
               (candidates hooks) new \<longrightarrow>
            fst (register_strategy env hooks self True) = strategies_vector self @ new)
   \<and> (\<forall>c v. snd (register_strategy env hooks self c) = Inr v \<longrightarrow>
          (\<exists>new. v = strategies_vector self @ new
             \<and> length new = length (candidates hooks)
             \<and> (\<forall>i < length new. \<exists>costs.
                   new ! i = (candidates hooks ! i)\<lparr>resharding_costs := costs\<rparr>)))"
proof (intro conjI allI impI)
  show "fst (register_strategy env hooks self False)
          = strategies_vector self @ candidates hooks"
    by (simp add: register_strategy_False)
next
  fix new
  assume "list_all2 (\<lambda>s s'. update_resharding_cost env self s = Inr s') (candidates hooks) new"
  from register_strategy_True [OF this]
  show "fst (register_strategy env hooks self True) = strategies_vector self @ new"
    by simp
next
  fix c v
  assume "snd (register_strategy env hooks self c) = Inr v"
  from register_strategy_Inr_new [OF this] obtain new where
    v: "v = strategies_vector self @ new"
    and new: "if c then list_all2 (\<lambda>s s'. update_resharding_cost env self s = Inr s')
                          (candidates hooks) new
              else new = candidates hooks" by blast
  have len: "length new = length (candidates hooks)"
    using new by (cases c) (auto dest: list_all2_lengthD)
  have "\<exists>costs. new ! i = (candidates hooks ! i)\<lparr>resharding_costs := costs\<rparr>"
    if "i < length new" for i
  proof (cases c)
    case False
    with new have "new ! i = (candidates hooks ! i)\<lparr>resharding_costs :=
                                resharding_costs (candidates hooks ! i)\<rparr>" by simp
    then show ?thesis by (rule exI)
  next
    case True
    with new have "list_all2 (\<lambda>s s'. update_resharding_cost env self s = Inr s')
                     (candidates hooks) new" by simp
    from list_all2_nthD2 [OF this that]
    have "update_resharding_cost env self (candidates hooks ! i) = Inr (new ! i)" .
    from update_resharding_cost_Inr_D [OF this] show ?thesis by blast
  qed
  with v len
  show "\<exists>new. v = strategies_vector self @ new
          \<and> length new = length (candidates hooks)
          \<and> (\<forall>i < length new. \<exists>costs.
                new ! i = (candidates hooks ! i)\<lparr>resharding_costs := costs\<rparr>)"
    by blast
qed

theorem register_strategy_order_witness:
  "candidates hooks_fan_out
     = [strategy_c_dim1, strategy_c_dim1, strategy_c_replicated, strategy_c_replicated]
   \<and> list_all2 (\<lambda>s s'. update_resharding_cost example_env handler_c s = Inr s')
        (candidates hooks_fan_out)
        [strategy_c_dim1, strategy_c_dim1, strategy_c_replicated, strategy_c_replicated]
   \<and> snd (register_strategy example_env hooks_fan_out handler_c True)
       = Inr [strategy_c_dim1, strategy_c_dim1, strategy_c_replicated, strategy_c_replicated]
   \<and> fst (register_strategy example_env hooks_fan_out handler_c False)
       = strategies_vector handler_c @ candidates hooks_fan_out
   \<and> fst (register_strategy example_env hooks_fan_out handler_c True)
       = strategies_vector handler_c
         @ [strategy_c_dim1, strategy_c_dim1, strategy_c_replicated, strategy_c_replicated]
   \<and> (\<exists>new. [strategy_c_dim1, strategy_c_dim1, strategy_c_replicated, strategy_c_replicated]
               = strategies_vector handler_c @ new
          \<and> length new = length (candidates hooks_fan_out)
          \<and> (\<forall>i < length new. \<exists>costs.
                new ! i = (candidates hooks_fan_out ! i)\<lparr>resharding_costs := costs\<rparr>))"
proof -
  have r: "snd (register_strategy example_env hooks_fan_out handler_c True)
             = Inr [strategy_c_dim1, strategy_c_dim1, strategy_c_replicated,
                    strategy_c_replicated]"
    by (simp add: example_register_fan_out)
  from register_strategy_order [of example_env hooks_fan_out handler_c]
    example_candidates_fan_out example_updates_fan_out r
  show ?thesis by blast
qed

subsection \<open>The vector only grows\<close>





subsection \<open>The flag\<close>




subsection \<open>Validation after the commit\<close>

lemma example_candidates_c:
  "candidates hooks_c = [strategy_c_dim0, strategy_c_dim1]"
  by (simp add: candidates_def hooks_c_def post_process_default_def fan_out_def)

lemma example_updates_c:
  "list_all2 (\<lambda>s s'. update_resharding_cost example_env handler_c s = Inr s')
     (candidates hooks_c) [strategy_c_dim0, strategy_c_dim1]"
  unfolding example_candidates_c
  by (simp add: strategy_c_dim0_def strategy_c_dim1_def example_update_c)

lemma example_handler_c:
  "strategies_vector handler_c = []"
  "check_sharding_spec_validity example_env = sharding_spec_valid"
  by (simp_all add: handler_c_def NodeHandler_init_def example_env_def)

lemma example_register_c:
  "register_strategy example_env hooks_c handler_c True
     = ([strategy_c_dim0, strategy_c_dim1], Inl InvalidLayoutError)"
  using register_strategy_True [OF example_updates_c]
  by (simp add: example_handler_c example_valid_c)

text \<open>
  C1, as the specification states it, fails: on a \<open>3 \<times> 8\<close> tensor and a \<open>2 \<times> 2\<close> mesh the
  candidate that shards dimension 0 is invalid and the one that shards dimension 1 is
  valid; \<open>register_strategy\<close> raises instead of returning the valid candidate, and the
  vector of the node holds the invalid candidate.
\<close>

theorem invalid_candidate_committed_counterexample:
  "\<not> sharding_spec_valid shard_dim0 [3, 8]
   \<and> sharding_spec_valid shard_dim1 [3, 8]
   \<and> candidates hooks_c = [strategy_c_dim0, strategy_c_dim1]
   \<and> sharding_specs strategy_c_dim0
       = [(\<lparr>name = ''c'', role = OUTPUT, data = TensorData [3, 8]\<rparr>, shard_dim0)]
   \<and> register_strategy example_env hooks_c handler_c True
       = ([strategy_c_dim0, strategy_c_dim1], Inl InvalidLayoutError)"
  using example_register_c example_candidates_c
  by (simp add: sharding_spec_valid_def shard_dim0_def shard_dim1_def strategy_c_dim0_def
      example_strategy_def output_c_def)

text \<open>
  C1, amended. \<open>register_strategy\<close> validates after it has appended every candidate. When
  it returns, every strategy of the returned vector has valid layouts on its tensor
  operands. When a layout of the vector is invalid, the call raises the error of the
  validity check and returns nothing, and the vector of the node holds all the candidates,
  the invalid ones too.
\<close>

theorem invalid_layout_raises:
  "(\<forall>v. snd (register_strategy env hooks self c) = Inr v \<longrightarrow>
        v = fst (register_strategy env hooks self c)
        \<and> list_all (has_valid_layouts (check_sharding_spec_validity env)) v)
   \<and> (\<not> list_all (has_valid_layouts (check_sharding_spec_validity env))
            (strategies_vector self @ candidates hooks) \<longrightarrow>
        register_strategy env hooks self False
          = (strategies_vector self @ candidates hooks, Inl InvalidLayoutError))
   \<and> (\<forall>new. list_all2 (\<lambda>s s'. update_resharding_cost env self s = Inr s')
               (candidates hooks) new
             \<and> \<not> list_all (has_valid_layouts (check_sharding_spec_validity env))
                    (strategies_vector self @ new) \<longrightarrow>
        register_strategy env hooks self True
          = (strategies_vector self @ new, Inl InvalidLayoutError))"
proof (intro conjI allI impI)
  fix v
  assume "snd (register_strategy env hooks self c) = Inr v"
  from register_strategy_Inr_D [OF this]
  show "v = fst (register_strategy env hooks self c)"
    and "list_all (has_valid_layouts (check_sharding_spec_validity env)) v"
    by blast+
next
  assume "\<not> list_all (has_valid_layouts (check_sharding_spec_validity env))
            (strategies_vector self @ candidates hooks)"
  then show "register_strategy env hooks self False
               = (strategies_vector self @ candidates hooks, Inl InvalidLayoutError)"
    by (simp only: register_strategy_False if_False)
next
  fix new
  assume a: "list_all2 (\<lambda>s s'. update_resharding_cost env self s = Inr s')
               (candidates hooks) new
             \<and> \<not> list_all (has_valid_layouts (check_sharding_spec_validity env))
                    (strategies_vector self @ new)"
  then have l: "list_all2 (\<lambda>s s'. update_resharding_cost env self s = Inr s')
                  (candidates hooks) new" ..
  from a have "\<not> list_all (has_valid_layouts (check_sharding_spec_validity env))
                   (strategies_vector self @ new)" ..
  then show "register_strategy env hooks self True
               = (strategies_vector self @ new, Inl InvalidLayoutError)"
    by (simp only: register_strategy_True [OF l] if_False)
qed

theorem invalid_layout_raises_witness:
  "snd (register_strategy example_env hooks_fan_out handler_c True)
     = Inr [strategy_c_dim1, strategy_c_dim1, strategy_c_replicated, strategy_c_replicated]
   \<and> list_all (has_valid_layouts (check_sharding_spec_validity example_env))
        [strategy_c_dim1, strategy_c_dim1, strategy_c_replicated, strategy_c_replicated]
   \<and> \<not> list_all (has_valid_layouts (check_sharding_spec_validity example_env))
          (strategies_vector handler_c @ candidates hooks_c)
   \<and> register_strategy example_env hooks_c handler_c False
       = (strategies_vector handler_c @ candidates hooks_c, Inl InvalidLayoutError)
   \<and> list_all2 (\<lambda>s s'. update_resharding_cost example_env handler_c s = Inr s')
        (candidates hooks_c) [strategy_c_dim0, strategy_c_dim1]
   \<and> \<not> list_all (has_valid_layouts (check_sharding_spec_validity example_env))
          (strategies_vector handler_c @ [strategy_c_dim0, strategy_c_dim1])
   \<and> register_strategy example_env hooks_c handler_c True
       = (strategies_vector handler_c @ [strategy_c_dim0, strategy_c_dim1],
          Inl InvalidLayoutError)"
proof -
  have r: "snd (register_strategy example_env hooks_fan_out handler_c True)
             = Inr [strategy_c_dim1, strategy_c_dim1, strategy_c_replicated,
                    strategy_c_replicated]"
    by (simp add: example_register_fan_out)
  have i: "\<not> list_all (has_valid_layouts (check_sharding_spec_validity example_env))
               (strategies_vector handler_c @ candidates hooks_c)"
    by (simp add: example_handler_c example_candidates_c example_valid_c)
  have j: "\<not> list_all (has_valid_layouts (check_sharding_spec_validity example_env))
               (strategies_vector handler_c @ [strategy_c_dim0, strategy_c_dim1])"
    by (simp add: example_handler_c example_valid_c)
  from invalid_layout_raises [of example_env hooks_fan_out handler_c True] r
  have a: "list_all (has_valid_layouts (check_sharding_spec_validity example_env))
             [strategy_c_dim1, strategy_c_dim1, strategy_c_replicated, strategy_c_replicated]"
    by blast
  from invalid_layout_raises [of example_env hooks_c handler_c True] i
  have b: "register_strategy example_env hooks_c handler_c False
             = (strategies_vector handler_c @ candidates hooks_c, Inl InvalidLayoutError)"
    by blast
  from invalid_layout_raises [of example_env hooks_c handler_c True] example_updates_c j
  have c: "register_strategy example_env hooks_c handler_c True
             = (strategies_vector handler_c @ [strategy_c_dim0, strategy_c_dim1],
                Inl InvalidLayoutError)"
    by blast
  from r a i b example_updates_c j c show ?thesis by blast
qed

subsection \<open>Operands without a tensor\<close>

lemma entry_for_check:
  "entry_for (env\<lparr>check_sharding_spec_validity := check'\<rparr>) strategy n
     = entry_for env strategy n"
  by (simp add: entry_for_def cong: option.case_cong sum.case_cong)

lemma predecessor_loop_check:
  "predecessor_loop (env\<lparr>check_sharding_spec_validity := check'\<rparr>) strategy ns costs
     = predecessor_loop env strategy ns costs"
proof (induction ns arbitrary: costs)
  case Nil
  show ?case by simp
next
  case (Cons n ns)
  show ?case
    unfolding predecessor_loop_Cons entry_for_check
    by (cases "entry_for env strategy n") (simp_all add: Cons.IH)
qed

lemma update_resharding_cost_check:
  "update_resharding_cost (env\<lparr>check_sharding_spec_validity := check'\<rparr>) self
     = update_resharding_cost env self"
  by (rule ext) (simp add: update_resharding_cost_def predecessor_loop_check)

lemma generator_loop_check:
  "generator_loop (env\<lparr>check_sharding_spec_validity := check'\<rparr>) hooks self c gens vec
     = generator_loop env hooks self c gens vec"
proof (cases c)
  case False
  then show ?thesis by (simp add: generator_loop_False)
next
  case True
  have "generator_loop (env\<lparr>check_sharding_spec_validity := check'\<rparr>) hooks self True gens vec
          = generator_loop env hooks self True gens vec"
  proof (induction gens arbitrary: vec)
    case Nil
    show ?case by simp
  next
    case (Cons g gs)
    show ?case
      by (cases "comprehension (update_resharding_cost env self)
                   (post_processed_strategies hooks g)")
         (simp_all add: update_resharding_cost_check Cons.IH)
  qed
  with True show ?thesis by simp
qed

lemma has_valid_layouts_iff:
  "has_valid_layouts check strategy
     = (\<forall>(op_data, l) \<in> set (sharding_specs strategy).
          \<forall>t. data op_data = TensorData t \<longrightarrow> check l t)"
proof -
  have "(case data od of TensorData t \<Rightarrow> check l t | _ \<Rightarrow> True)
          = (\<forall>t. data od = TensorData t \<longrightarrow> check l t)" for od :: operation_data and l
    by (cases "data od") simp_all
  then show ?thesis
    by (simp add: has_valid_layouts_def list_all_iff case_prod_beta)
qed

lemma has_valid_layouts_cong:
  assumes "\<forall>(op_data, l) \<in> set (sharding_specs strategy).
             \<forall>t. data op_data = TensorData t \<longrightarrow> check' l t = check l t"
  shows "has_valid_layouts check' strategy = has_valid_layouts check strategy"
  unfolding has_valid_layouts_iff using assms by fastforce

lemma validate_strategies_cong:
  assumes "\<forall>s \<in> set vec. \<forall>(op_data, l) \<in> set (sharding_specs s).
             \<forall>t. data op_data = TensorData t \<longrightarrow> check' l t = check l t"
  shows "validate_strategies check' vec = validate_strategies check vec"
proof -
  have "has_valid_layouts check' s = has_valid_layouts check s" if "s \<in> set vec" for s
  proof (rule has_valid_layouts_cong)
    from assms that
    show "\<forall>(op_data, l) \<in> set (sharding_specs s).
            \<forall>t. data op_data = TensorData t \<longrightarrow> check' l t = check l t"
      by (rule bspec)
  qed
  then have "list_all (has_valid_layouts check') vec = list_all (has_valid_layouts check) vec"
    by (simp add: list_all_iff)
  then show ?thesis by (simp add: validate_strategies_cases)
qed

lemma get_sharding_spec_by_name_Inl:
  "get_sharding_spec_by_name strategy n = Inl e \<Longrightarrow> e = KeyError n"
  by (cases "find (\<lambda>(op_data, sharding_spec). name op_data = n) (sharding_specs strategy)")
     auto

lemma entry_for_Inl_kind:
  assumes "entry_for env strategy n = Inl e"
  shows "e \<noteq> InvalidLayoutError"
proof (cases "strategies_vector_of env n")
  case None
  with assms show ?thesis by (auto simp add: entry_for_def)
next
  case (Some vec)
  show ?thesis
  proof (cases "comprehension (\<lambda>prev_strategy. get_sharding_spec_by_name prev_strategy (node_name n)) vec")
    case (Inl e')
    with assms Some have "e' = e" by (simp add: entry_for_def)
    with comprehension_Inl_D [OF Inl] show ?thesis
      by (auto dest: get_sharding_spec_by_name_Inl simp del: get_sharding_spec_by_name.simps)
  next
    case (Inr prevs)
    with assms Some obtain "get_sharding_spec_by_name strategy (node_name n) = Inl e"
      by (cases "get_sharding_spec_by_name strategy (node_name n)")
         (simp_all add: entry_for_def)
    from get_sharding_spec_by_name_Inl [OF this] show ?thesis by simp
  qed
qed

lemma predecessor_loop_Inl_kind:
  "predecessor_loop env strategy ns costs = Inl e \<Longrightarrow> e \<noteq> InvalidLayoutError"
proof (induction ns arbitrary: costs)
  case Nil
  then show ?case by simp
next
  case (Cons n ns)
  show ?case
  proof (cases "entry_for env strategy n")
    case (Inl e')
    with Cons.prems have "e' = e" unfolding predecessor_loop_Cons by simp
    with entry_for_Inl_kind [OF Inl] show ?thesis by simp
  next
    case (Inr entry)
    with Cons.prems have "predecessor_loop env strategy ns (AList.update n entry costs) = Inl e"
      unfolding predecessor_loop_Cons by simp
    then show ?thesis by (rule Cons.IH)
  qed
qed

lemma generator_loop_Some_kind:
  "snd (generator_loop env hooks self c gens vec) = Some e \<Longrightarrow> e \<noteq> InvalidLayoutError"
proof (cases c)
  case False
  assume "snd (generator_loop env hooks self c gens vec) = Some e"
  with False show ?thesis by (simp add: generator_loop_False)
next
  case True
  assume "snd (generator_loop env hooks self c gens vec) = Some e"
  with True have "snd (generator_loop env hooks self True gens vec) = Some e" by simp
  then show ?thesis
  proof (induction gens arbitrary: vec)
    case Nil
    then show ?case by simp
  next
    case (Cons g gs)
    show ?case
    proof (cases "comprehension (update_resharding_cost env self)
                    (post_processed_strategies hooks g)")
      case (Inl e')
      with Cons.prems have "e' = e" by simp
      with comprehension_Inl_D [OF Inl] obtain s where
        "update_resharding_cost env self s = Inl e" by blast
      then have "predecessor_loop env s (predecessor_node self) [] = Inl e"
        by (simp add: update_resharding_cost_Inl_iff)
      then show ?thesis by (rule predecessor_loop_Inl_kind)
    next
      case (Inr new)
      with Cons.prems
      have "snd (generator_loop env hooks self True gs (vec @ new)) = Some e" by simp
      then show ?thesis by (rule Cons.IH)
    qed
  qed
qed

lemma register_strategy_invalid_D:
  assumes "snd (register_strategy env hooks self c) = Inl InvalidLayoutError"
  shows "\<not> list_all (has_valid_layouts (check_sharding_spec_validity env))
             (fst (register_strategy env hooks self c))"
proof (cases "generator_loop env hooks self c (get_strategy_generator hooks)
                (strategies_vector self)")
  case (Pair vec r)
  show ?thesis
  proof (cases r)
    case None
    with Pair assms register_strategy_loop_ok [of env hooks self c vec] show ?thesis
      by (auto split: if_splits)
  next
    case (Some e)
    with Pair assms register_strategy_loop_fail [of env hooks self c vec e]
    have "e = InvalidLayoutError" by simp
    moreover from Pair Some
    have "snd (generator_loop env hooks self c (get_strategy_generator hooks)
                 (strategies_vector self)) = Some e" by simp
    from generator_loop_Some_kind [OF this] have "e \<noteq> InvalidLayoutError" .
    ultimately show ?thesis by simp
  qed
qed

lemma example_register_mixed:
  "register_strategy example_env hooks_mixed handler_c False
     = ([strategy_mixed], Inr [strategy_mixed])"
proof -
  have "candidates hooks_mixed = [strategy_mixed]"
    by (simp add: candidates_def hooks_mixed_def post_process_default_def fan_out_def)
  moreover have "has_valid_layouts sharding_spec_valid strategy_mixed"
    by (simp add: has_valid_layouts_def strategy_mixed_def example_strategy_def output_c_def
        sharding_spec_valid_def shard_dim1_def)
  ultimately show ?thesis
    by (simp add: register_strategy_False example_handler_c)
qed

text \<open>
  C10. The validity check is consulted for an operand only when its data is a tensor:
  replacing the check by one that agrees with it on the tensor operands of the vector
  leaves the result of \<open>register_strategy\<close> as it is, whatever the new check says about
  the other layouts; and when the validation raises, a tensor operand has a layout the
  check rejects.
\<close>

theorem validation_skips_non_tensor_operands:
  "((\<forall>s \<in> set (fst (register_strategy env hooks self c)).
       \<forall>(op_data, l) \<in> set (sharding_specs s).
         \<forall>t. data op_data = TensorData t \<longrightarrow> check' l t = check_sharding_spec_validity env l t)
     \<longrightarrow> register_strategy (env\<lparr>check_sharding_spec_validity := check'\<rparr>) hooks self c
           = register_strategy env hooks self c)
   \<and> (snd (register_strategy env hooks self c) = Inl InvalidLayoutError \<longrightarrow>
        (\<exists>s \<in> set (fst (register_strategy env hooks self c)).
           \<exists>(op_data, l) \<in> set (sharding_specs s).
             \<exists>t. data op_data = TensorData t \<and> \<not> check_sharding_spec_validity env l t))"
proof (intro conjI impI)
  assume a: "\<forall>s \<in> set (fst (register_strategy env hooks self c)).
               \<forall>(op_data, l) \<in> set (sharding_specs s).
                 \<forall>t. data op_data = TensorData t \<longrightarrow>
                   check' l t = check_sharding_spec_validity env l t"
  obtain vec r where g: "generator_loop env hooks self c (get_strategy_generator hooks)
                           (strategies_vector self) = (vec, r)"
    by (cases "generator_loop env hooks self c (get_strategy_generator hooks)
                 (strategies_vector self)")
  then have "fst (register_strategy env hooks self c) = vec"
    by (simp add: register_strategy_fst)
  with a have "validate_strategies check' vec
                 = validate_strategies (check_sharding_spec_validity env) vec"
    by (intro validate_strategies_cong) simp
  with g show "register_strategy (env\<lparr>check_sharding_spec_validity := check'\<rparr>) hooks self c
                 = register_strategy env hooks self c"
    by (simp add: register_strategy_def generator_loop_check)
next
  assume "snd (register_strategy env hooks self c) = Inl InvalidLayoutError"
  from register_strategy_invalid_D [OF this]
  obtain s where s: "s \<in> set (fst (register_strategy env hooks self c))"
    and i: "\<not> has_valid_layouts (check_sharding_spec_validity env) s"
    by (auto simp add: list_all_iff)
  from i have "\<exists>(op_data, l) \<in> set (sharding_specs s).
                 \<exists>t. data op_data = TensorData t \<and> \<not> check_sharding_spec_validity env l t"
    unfolding has_valid_layouts_iff by fastforce
  with s show "\<exists>s \<in> set (fst (register_strategy env hooks self c)).
                 \<exists>(op_data, l) \<in> set (sharding_specs s).
                   \<exists>t. data op_data = TensorData t \<and> \<not> check_sharding_spec_validity env l t"
    by blast
qed

theorem validation_skips_non_tensor_operands_witness:
  "fst (register_strategy example_env hooks_mixed handler_c False) = [strategy_mixed]
   \<and> map (\<lambda>(op_data, l). data op_data) (sharding_specs strategy_mixed)
       = [TensorData [3, 8], NoData, OtherData]
   \<and> map snd (sharding_specs strategy_mixed) = [shard_dim1, axis_reused, axis_reused]
   \<and> check_sharding_spec_validity example_env shard_dim1 [3, 8]
   \<and> (\<forall>t. \<not> sharding_spec_valid axis_reused t)
   \<and> register_strategy
         (example_env\<lparr>check_sharding_spec_validity := (\<lambda>l t. l = shard_dim1)\<rparr>)
         hooks_mixed handler_c False
       = register_strategy example_env hooks_mixed handler_c False
   \<and> register_strategy example_env hooks_mixed handler_c False
       = ([strategy_mixed], Inr [strategy_mixed])
   \<and> snd (register_strategy example_env hooks_c handler_c True) = Inl InvalidLayoutError
   \<and> (\<exists>s \<in> set (fst (register_strategy example_env hooks_c handler_c True)).
         \<exists>(op_data, l) \<in> set (sharding_specs s).
           \<exists>t. data op_data = TensorData t
             \<and> \<not> check_sharding_spec_validity example_env l t)"
proof -
  have h: "\<forall>s \<in> set (fst (register_strategy example_env hooks_mixed handler_c False)).
             \<forall>(op_data, l) \<in> set (sharding_specs s).
               \<forall>t. data op_data = TensorData t \<longrightarrow>
                 (l = shard_dim1) = check_sharding_spec_validity example_env l t"
    by (simp add: example_register_mixed strategy_mixed_def example_strategy_def output_c_def
        example_handler_c sharding_spec_valid_def shard_dim1_def)
  have a: "\<forall>t. \<not> sharding_spec_valid axis_reused t"
    by (simp add: sharding_spec_valid_def axis_reused_def)
  have r: "snd (register_strategy example_env hooks_c handler_c True) = Inl InvalidLayoutError"
    by (simp add: example_register_c)
  from validation_skips_non_tensor_operands
    [of example_env hooks_mixed handler_c False "\<lambda>l t. l = shard_dim1"] h
  have e: "register_strategy
             (example_env\<lparr>check_sharding_spec_validity := (\<lambda>l t. l = shard_dim1)\<rparr>)
             hooks_mixed handler_c False
           = register_strategy example_env hooks_mixed handler_c False"
    by (rule conjunct1 [THEN mp])
  from validation_skips_non_tensor_operands
    [of example_env hooks_c handler_c True "\<lambda>l t. True"] r
  have f: "\<exists>s \<in> set (fst (register_strategy example_env hooks_c handler_c True)).
             \<exists>(op_data, l) \<in> set (sharding_specs s).
               \<exists>t. data op_data = TensorData t
                 \<and> \<not> check_sharding_spec_validity example_env l t"
    by (rule conjunct2 [THEN mp])
  have s: "fst (register_strategy example_env hooks_mixed handler_c False) = [strategy_mixed]"
    by (simp add: example_register_mixed)
  have o: "map (\<lambda>(op_data, l). data op_data) (sharding_specs strategy_mixed)
             = [TensorData [3, 8], NoData, OtherData]"
    "map snd (sharding_specs strategy_mixed) = [shard_dim1, axis_reused, axis_reused]"
    by (simp_all add: strategy_mixed_def example_strategy_def output_c_def)
  have v: "check_sharding_spec_validity example_env shard_dim1 [3, 8]"
    by (simp add: example_handler_c sharding_spec_valid_def shard_dim1_def)
  from s o v a e example_register_mixed r f show ?thesis by (intro conjI)
qed

subsection \<open>ModuleHandler\<close>

lemma update_fresh:
  "k \<notin> fst ` set al \<Longrightarrow> AList.update k v al = al @ [(k, v)]"
  by (induction al) auto

lemma foldl_update_map_of:
  "map_of (foldl (\<lambda>d (k, v). AList.update k v d) acc pairs)
     = map_of acc ++ map_of (rev pairs)"
proof (induction pairs arbitrary: acc)
  case Nil
  show ?case by simp
next
  case (Cons p pairs)
  obtain k v where p: "p = (k, v)" by (cases p)
  have "map_of (AList.update k v acc) ++ map_of (rev pairs)
          = map_of acc ++ (map_of [(k, v)] ++ map_of (rev pairs))"
    by (rule ext) (simp add: update_conv' map_add_def split: option.splits)
  with Cons.IH [of "AList.update k v acc"] p show ?case by simp
qed

lemma foldl_update_distinct:
  "distinct (map fst pairs) \<Longrightarrow> fst ` set acc \<inter> fst ` set pairs = {} \<Longrightarrow>
   foldl (\<lambda>d (k, v). AList.update k v d) acc pairs = acc @ pairs"
proof (induction pairs arbitrary: acc)
  case Nil
  show ?case by simp
next
  case (Cons p pairs)
  obtain k v where p: "p = (k, v)" by (cases p)
  with Cons.prems have fresh: "k \<notin> fst ` set acc" by auto
  have "fst ` set (acc @ [(k, v)]) \<inter> fst ` set pairs = {}"
    using Cons.prems p by auto
  moreover from Cons.prems have "distinct (map fst pairs)" by simp
  ultimately have "foldl (\<lambda>d (k, v). AList.update k v d) (acc @ [(k, v)]) pairs
                     = (acc @ [(k, v)]) @ pairs"
    by (rule Cons.IH [rotated])
  with p update_fresh [OF fresh] show ?case by simp
qed

lemma dict_of_pairs_map_of: "map_of (dict_of_pairs pairs) = map_of (rev pairs)"
  by (simp add: dict_of_pairs_def foldl_update_map_of)

lemma dict_of_pairs_distinct:
  "distinct (map fst pairs) \<Longrightarrow> dict_of_pairs pairs = pairs"
  using foldl_update_distinct [of pairs "[]"] by (simp add: dict_of_pairs_def)

lemma ModuleHandler_init_Inr_D:
  assumes "ModuleHandler_init node_object mesh vec = Inr h"
  shows "\<exists>owner m. owning_module node_object = Some owner
           \<and> get_submodule owner (target node_object) = Inr m
           \<and> h = node_handler.extend
                    (NodeHandler_init (this_node node_object) (input_nodes node_object)
                       (users node_object) mesh vec)
                    \<lparr>module = m,
                     named_parameters = dict_of_pairs (module_named_parameters m),
                     named_buffers = dict_of_pairs (module_named_buffers m)\<rparr>"
proof (cases "owning_module node_object")
  case None
  with assms show ?thesis by (simp add: ModuleHandler_init_def)
next
  case (Some owner)
  with assms show ?thesis
    by (cases "get_submodule owner (target node_object)")
       (auto simp add: ModuleHandler_init_def)
qed

text \<open>
  C7. The constructor of \<open>ModuleHandler\<close> raises when the graph has no owning module and
  when the target of the node does not resolve to a submodule; when it returns, the
  module was resolved from the owning module, and the handler holds the parameters and the
  buffers of that module itself as dictionaries from name to tensor.
\<close>

theorem ModuleHandler_init_resolves:
  "(owning_module node_object = None \<longrightarrow>
      ModuleHandler_init node_object mesh vec = Inl (AssertionError no_owning_module_message))
   \<and> (\<forall>owner e. owning_module node_object = Some owner
          \<and> get_submodule owner (target node_object) = Inl e \<longrightarrow>
        ModuleHandler_init node_object mesh vec = Inl e)
   \<and> (\<forall>h. ModuleHandler_init node_object mesh vec = Inr h \<longrightarrow>
        (\<exists>owner. owning_module node_object = Some owner
           \<and> get_submodule owner (target node_object) = Inr (module h))
        \<and> map_of (named_parameters h) = map_of (rev (module_named_parameters (module h)))
        \<and> map_of (named_buffers h) = map_of (rev (module_named_buffers (module h)))
        \<and> (distinct (map fst (module_named_parameters (module h))) \<longrightarrow>
             named_parameters h = module_named_parameters (module h))
        \<and> (distinct (map fst (module_named_buffers (module h))) \<longrightarrow>
             named_buffers h = module_named_buffers (module h))
        \<and> node h = this_node node_object
        \<and> predecessor_node h = input_nodes node_object
        \<and> successor_node h = users node_object
        \<and> device_mesh h = mesh
        \<and> strategies_vector h = vec)"
proof (intro conjI allI impI)
  assume "owning_module node_object = None"
  then show "ModuleHandler_init node_object mesh vec
               = Inl (AssertionError no_owning_module_message)"
    by (simp add: ModuleHandler_init_def)
next
  fix owner e
  assume "owning_module node_object = Some owner
          \<and> get_submodule owner (target node_object) = Inl e"
  then show "ModuleHandler_init node_object mesh vec = Inl e"
    by (simp add: ModuleHandler_init_def)
next
  fix h
  assume a: "ModuleHandler_init node_object mesh vec = Inr h"
  from ModuleHandler_init_Inr_D [OF a] obtain owner m where
    o: "owning_module node_object = Some owner"
    and g: "get_submodule owner (target node_object) = Inr m"
    and h: "h = node_handler.extend
                  (NodeHandler_init (this_node node_object) (input_nodes node_object)
                     (users node_object) mesh vec)
                  \<lparr>module = m,
                   named_parameters = dict_of_pairs (module_named_parameters m),
                   named_buffers = dict_of_pairs (module_named_buffers m)\<rparr>"
    by blast
  from h have m: "module h = m"
    and p: "named_parameters h = dict_of_pairs (module_named_parameters m)"
    and b: "named_buffers h = dict_of_pairs (module_named_buffers m)"
    and base: "node h = this_node node_object" "predecessor_node h = input_nodes node_object"
      "successor_node h = users node_object" "device_mesh h = mesh" "strategies_vector h = vec"
    by (simp_all add: node_handler.defs NodeHandler_init_def)
  from o g m show "\<exists>owner. owning_module node_object = Some owner
                     \<and> get_submodule owner (target node_object) = Inr (module h)"
    by simp
  from p m show "map_of (named_parameters h) = map_of (rev (module_named_parameters (module h)))"
    by (simp add: dict_of_pairs_map_of)
  from b m show "map_of (named_buffers h) = map_of (rev (module_named_buffers (module h)))"
    by (simp add: dict_of_pairs_map_of)
  from base show "node h = this_node node_object" "predecessor_node h = input_nodes node_object"
    "successor_node h = users node_object" "device_mesh h = mesh" "strategies_vector h = vec"
    by simp_all
next
  fix h
  assume a: "ModuleHandler_init node_object mesh vec = Inr h"
    and d: "distinct (map fst (module_named_parameters (module h)))"
  from ModuleHandler_init_Inr_D [OF a]
  have "named_parameters h = dict_of_pairs (module_named_parameters (module h))"
    by (auto simp add: node_handler.defs NodeHandler_init_def)
  with d show "named_parameters h = module_named_parameters (module h)"
    by (simp add: dict_of_pairs_distinct)
next
  fix h
  assume a: "ModuleHandler_init node_object mesh vec = Inr h"
    and d: "distinct (map fst (module_named_buffers (module h)))"
  from ModuleHandler_init_Inr_D [OF a]
  have "named_buffers h = dict_of_pairs (module_named_buffers (module h))"
    by (auto simp add: node_handler.defs NodeHandler_init_def)
  with d show "named_buffers h = module_named_buffers (module h)"
    by (simp add: dict_of_pairs_distinct)
qed

lemma example_linear_handler:
  "ModuleHandler_init linear_node [2, 2] [] = Inr linear_handler"
  by (simp add: ModuleHandler_init_def linear_node_def example_owner_def linear_handler_def
      linear_module_def dict_of_pairs_def)

theorem ModuleHandler_init_resolves_witness:
  "owning_module detached_node = None
   \<and> ModuleHandler_init detached_node [2, 2] ([] :: (sharding_spec, int) sharding_strategy list)
       = Inl (AssertionError no_owning_module_message)
   \<and> owning_module unresolved_node = Some example_owner
   \<and> get_submodule example_owner (target unresolved_node) = Inl (AttributeError ''conv'')
   \<and> ModuleHandler_init unresolved_node [2, 2] ([] :: (sharding_spec, int) sharding_strategy list)
       = Inl (AttributeError ''conv'')
   \<and> ModuleHandler_init linear_node [2, 2] [] = Inr linear_handler
   \<and> get_submodule example_owner (target linear_node) = Inr (module linear_handler)
   \<and> distinct (map fst (module_named_parameters (module linear_handler)))
   \<and> named_parameters linear_handler = module_named_parameters (module linear_handler)
   \<and> map_of (named_buffers linear_handler)
       = map_of (rev (module_named_buffers (module linear_handler)))
   \<and> strategies_vector linear_handler = []"
proof -
  have d: "owning_module detached_node = None"
    by (simp add: detached_node_def)
  have u: "owning_module unresolved_node = Some example_owner"
    "get_submodule example_owner (target unresolved_node) = Inl (AttributeError ''conv'')"
    by (simp_all add: unresolved_node_def linear_node_def example_owner_def)
  have g: "get_submodule example_owner (target linear_node) = Inr (module linear_handler)"
    by (simp add: linear_node_def example_owner_def linear_handler_def node_handler.defs)
  have n: "distinct (map fst (module_named_parameters (module linear_handler)))"
    by (simp add: linear_handler_def node_handler.defs linear_module_def)
  from ModuleHandler_init_resolves [of detached_node "[2, 2]"
      "[] :: (sharding_spec, int) sharding_strategy list"] d
  have a: "ModuleHandler_init detached_node [2, 2]
             ([] :: (sharding_spec, int) sharding_strategy list)
           = Inl (AssertionError no_owning_module_message)"
    by (rule conjunct1 [THEN mp])
  from ModuleHandler_init_resolves [of unresolved_node "[2, 2]"
      "[] :: (sharding_spec, int) sharding_strategy list"] u
  have b: "ModuleHandler_init unresolved_node [2, 2]
             ([] :: (sharding_spec, int) sharding_strategy list)
           = Inl (AttributeError ''conv'')"
    by blast
  from ModuleHandler_init_resolves [of linear_node "[2, 2]"
      "[] :: (sharding_spec, int) sharding_strategy list"] example_linear_handler n
  have c: "named_parameters linear_handler = module_named_parameters (module linear_handler)"
    "map_of (named_buffers linear_handler)
       = map_of (rev (module_named_buffers (module linear_handler)))"
    "strategies_vector linear_handler = []"
    by blast+
  from d a u b example_linear_handler g n c show ?thesis by (intro conjI)
qed

end
